theory Spec2Isabelle
  imports Main "HOL-Library.Char_ord" "HOL-Library.List_Lexorder"
begin

section \<open>Python values used by aiosip\<close>

text \<open>
  Strings are lists of characters (bytes); Python compares strings by code point, which is
  the lexicographic order of \<open>List_Lexorder\<close> over the character order of \<open>Char_ord\<close>.
  Exceptions are values of the type \<open>error\<close>; a function that can raise returns
  \<open>error + 'a\<close>, or an outcome together with the state it leaves behind.
\<close>

datatype error =
  KeyError | IndexError | AttributeError | TypeError | ValueError string | OverflowError
  | TransactionError

datatype 'a outcome = Return 'a | Raise error

definition EOL :: string where
  "EOL = [CHR 0x0D, CHR 0x0A]"

definition is_upper :: "char \<Rightarrow> bool" where
  "is_upper c \<longleftrightarrow> (65::nat) \<le> of_char c \<and> of_char c \<le> (90::nat)"

definition is_lower :: "char \<Rightarrow> bool" where
  "is_lower c \<longleftrightarrow> (97::nat) \<le> of_char c \<and> of_char c \<le> (122::nat)"

definition is_alpha :: "char \<Rightarrow> bool" where
  "is_alpha c \<longleftrightarrow> is_upper c \<or> is_lower c"

definition is_digit :: "char \<Rightarrow> bool" where
  "is_digit c \<longleftrightarrow> (48::nat) \<le> of_char c \<and> of_char c \<le> (57::nat)"

text \<open>\<open>str.isspace\<close> on the ASCII range: TAB, LF, VT, FF, CR, FS, GS, RS, US and space.\<close>

definition is_space :: "char \<Rightarrow> bool" where
  "is_space c \<longleftrightarrow> ((9::nat) \<le> of_char c \<and> of_char c \<le> (13::nat))
     \<or> ((28::nat) \<le> of_char c \<and> of_char c \<le> (32::nat))"

definition lower_char :: "char \<Rightarrow> char" where
  "lower_char c = (if is_upper c then char_of (of_char c + (32::nat)) else c)"

definition upper_char :: "char \<Rightarrow> char" where
  "upper_char c = (if is_lower c then char_of (of_char c - (32::nat)) else c)"

definition lower :: "string \<Rightarrow> string" where
  "lower s = map lower_char s"

definition upper :: "string \<Rightarrow> string" where
  "upper s = map upper_char s"

subsection \<open>\<open>str(n)\<close> and \<open>int(s)\<close>\<close>

definition digit_char :: "nat \<Rightarrow> char" where
  "digit_char d = char_of (48 + d)"

definition digit_val :: "char \<Rightarrow> nat" where
  "digit_val c = of_char c - 48"

fun str_nat :: "nat \<Rightarrow> string" where
  "str_nat n = (if n < 10 then [digit_char n] else str_nat (n div 10) @ [digit_char (n mod 10)])"

declare str_nat.simps [simp del]

definition str_int :: "int \<Rightarrow> string" where
  "str_int i = (if i < 0 then CHR ''-'' # str_nat (nat (- i)) else str_nat (nat i))"

text \<open>
  \<open>int(s)\<close> for a string: surrounding white space is stripped, one sign is allowed, and the
  digits may be grouped by single underscores. Anything else raises \<open>ValueError\<close>
  (here \<open>None\<close>). Digits outside ASCII are not modelled.
\<close>

fun int_digits :: "nat \<Rightarrow> string \<Rightarrow> nat option" where
  "int_digits acc [] = Some acc"
| "int_digits acc (c # cs) =
     (if is_digit c then int_digits (10 * acc + digit_val c) cs
      else if c = CHR ''_'' then
        (case cs of
           [] \<Rightarrow> None
         | d # ds \<Rightarrow> if is_digit d then int_digits (10 * acc + digit_val d) ds else None)
      else None)"

definition int_unsigned :: "string \<Rightarrow> nat option" where
  "int_unsigned s =
     (case s of
        [] \<Rightarrow> None
      | c # cs \<Rightarrow> if is_digit c then int_digits (digit_val c) cs else None)"

definition strip :: "string \<Rightarrow> string" where
  "strip s = rev (dropWhile is_space (rev (dropWhile is_space s)))"

definition py_int :: "string \<Rightarrow> int option" where
  "py_int s =
     (case strip s of
        [] \<Rightarrow> None
      | c # cs \<Rightarrow>
          if c = CHR ''-'' then map_option (\<lambda>n. - int n) (int_unsigned cs)
          else if c = CHR ''+'' then map_option int (int_unsigned cs)
          else map_option int (int_unsigned (c # cs)))"

section \<open>The case-insensitive multi-dictionary of the headers\<close>

text \<open>
  \<open>CIMultiDict\<close> (library \<open>multidict\<close>) keeps its items in a list, each under the key as
  it was written; look-ups compare keys case-insensitively. A value is a string or, for a
  header seen several times, a list of strings (values that are integers or UUIDs are kept
  as the string \<open>str\<close> gives, which is all the formatting and \<open>int\<close> read of them).
\<close>

datatype hval = HStr string | HList "string list"

type_synonym headers = "(string \<times> hval) list"

definition ci_eq :: "string \<Rightarrow> string \<Rightarrow> bool" where
  "ci_eq a b \<longleftrightarrow> lower a = lower b"

text \<open>\<open>k in headers\<close>\<close>

definition contains :: "headers \<Rightarrow> string \<Rightarrow> bool" where
  "contains h k \<longleftrightarrow> list_ex (\<lambda>(k', v). ci_eq k' k) h"

text \<open>\<open>headers.get(k)\<close>: the first item under the key; \<open>headers[k]\<close> raises \<open>KeyError\<close> on \<open>None\<close>.\<close>

fun get :: "headers \<Rightarrow> string \<Rightarrow> hval option" where
  "get [] k = None"
| "get ((k', v) # h) k = (if ci_eq k' k then Some v else get h k)"

definition getitem :: "headers \<Rightarrow> string \<Rightarrow> error + hval" where
  "getitem h k = (case get h k of None \<Rightarrow> Inl KeyError | Some v \<Rightarrow> Inr v)"

text \<open>
  \<open>headers[k] = v\<close>: the first item under the key is replaced where it stands (and takes
  the new spelling of the key), every later item under the key is removed; a new key is
  appended.
\<close>

fun setitem :: "headers \<Rightarrow> string \<Rightarrow> hval \<Rightarrow> headers" where
  "setitem [] k v = [(k, v)]"
| "setitem ((k', v') # h) k v =
     (if ci_eq k' k then (k, v) # filter (\<lambda>(k'', w). \<not> ci_eq k'' k) h
      else (k', v') # setitem h k v)"

text \<open>\<open>CIMultiDict(headers or {})\<close>\<close>

definition copy_headers :: "headers option \<Rightarrow> headers" where
  "copy_headers ho = (case ho of None \<Rightarrow> [] | Some h \<Rightarrow> h)"

section \<open>The messages of \<open>message.py\<close>\<close>

subsection \<open>String functions\<close>

text \<open>\<open>sep.join(xs)\<close>\<close>

fun join :: "string \<Rightarrow> string list \<Rightarrow> string" where
  "join sep [] = []"
| "join sep [x] = x"
| "join sep (x # y # ys) = x @ sep @ join sep (y # ys)"

text \<open>
  \<open>s.split(utils.EOL)\<close>: the pieces between the occurrences of CR LF, found from the
  left; there is always at least one piece.
\<close>

fun split_eol :: "string \<Rightarrow> string list" where
  "split_eol [] = [[]]"
| "split_eol (c # cs) =
     (if c = CHR 0x0D \<and> (case cs of [] \<Rightarrow> False | c' # cs' \<Rightarrow> c' = CHR 0x0A)
      then [] # split_eol (tl cs)
      else (case split_eol cs of [] \<Rightarrow> [[c]] | l # ls \<Rightarrow> (c # l) # ls))"

text \<open>
  \<open>line.split(': ', 1)\<close>: the text before and after the first colon followed by a
  space, \<open>None\<close> when there is none (the list has one element then, and unpacking it into
  \<open>k, v\<close> raises \<open>ValueError\<close>).
\<close>

fun split_colon :: "string \<Rightarrow> (string \<times> string) option" where
  "split_colon [] = None"
| "split_colon (c # cs) =
     (if c = CHR '':'' \<and> (case cs of [] \<Rightarrow> False | c' # cs' \<Rightarrow> c' = CHR '' '')
      then Some ([], tl cs)
      else map_option (\<lambda>(k, v). (c # k, v)) (split_colon cs))"

text \<open>\<open>s.split(' ')\<close>: the pieces between single spaces.\<close>

fun split_space :: "string \<Rightarrow> string list" where
  "split_space [] = [[]]"
| "split_space (c # cs) =
     (if c = CHR '' '' then [] # split_space cs
      else (case split_space cs of [] \<Rightarrow> [[c]] | l # ls \<Rightarrow> (c # l) # ls))"

text \<open>\<open>s.split()\<close>: the maximal runs of characters that are not white space.\<close>

fun split_ws :: "string \<Rightarrow> string \<Rightarrow> string list" where
  "split_ws cur [] = (if cur = [] then [] else [rev cur])"
| "split_ws cur (c # cs) =
     (if is_space c then (if cur = [] then split_ws [] cs else rev cur # split_ws [] cs)
      else split_ws (c # cur) cs)"

subsection \<open>The first line\<close>

text \<open>
  \<open>FIRST_LINE_PATTERN\<close>, matched with \<open>re.match\<close>, that is at the start of the line and
  not necessarily to its end. A dot matches every character but the line feed, also the
  dot of \<open>SIP/2.0\<close>. The response pattern is \<open>SIP/2.0\<close>, a space, three digits, a space and
  one or more characters; its groups are the digits and the longest run without a line
  feed. The request pattern is one or more letters, a space, one or more characters, a
  space and \<open>SIP/2.0\<close>; only its group \<open>method\<close> is read.
\<close>

definition not_lf :: "char \<Rightarrow> bool" where
  "not_lf c \<longleftrightarrow> c \<noteq> CHR 0x0A"

definition match_response :: "string \<Rightarrow> (string \<times> string) option" where
  "match_response line =
     (if take 5 line = ''SIP/2'' \<and> length line \<ge> 13 \<and> not_lf (line ! 5) \<and> line ! 6 = CHR ''0''
         \<and> line ! 7 = CHR '' '' \<and> is_digit (line ! 8) \<and> is_digit (line ! 9) \<and> is_digit (line ! 10)
         \<and> line ! 11 = CHR '' '' \<and> not_lf (line ! 12)
      then Some (take 3 (drop 8 line), takeWhile not_lf (drop 12 line))
      else None)"

definition is_version :: "string \<Rightarrow> bool" where
  "is_version s \<longleftrightarrow> take 6 s = '' SIP/2'' \<and> length s \<ge> 8 \<and> not_lf (s ! 6) \<and> s ! 7 = CHR ''0''"

fun uri_then_version :: "string \<Rightarrow> bool" where
  "uri_then_version [] = False"
| "uri_then_version (c # cs) = (not_lf c \<and> (is_version cs \<or> uri_then_version cs))"

definition match_request :: "string \<Rightarrow> string option" where
  "match_request line =
     (let meth = takeWhile is_alpha line; rest = dropWhile is_alpha line in
      if meth \<noteq> [] \<and> (case rest of [] \<Rightarrow> False | c # cs \<Rightarrow> c = CHR '' '' \<and> uri_then_version cs)
      then Some meth else None)"

subsection \<open>The compact header names\<close>

definition compact_to_long :: "(string \<times> string) list" where
  "compact_to_long =
     [(''v'', ''Via''), (''f'', ''From''), (''t'', ''To''), (''i'', ''Call-ID''), (''m'', ''Contact''),
      (''l'', ''Content-Length''), (''c'', ''Content-Type''), (''e'', ''Content-Encoding''),
      (''s'', ''Subject''), (''k'', ''Supported''), (''x'', ''Session-Expires''), (''r'', ''Refer-To''),
      (''b'', ''Referred-By''), (''j'', ''Reject-Contact''), (''a'', ''Accept-Contact''),
      (''o'', ''Event''), (''u'', ''Allow-Events''), (''d'', ''Request-Disposition''),
      (''y'', ''Identity'')]"

definition long_to_compact :: "(string \<times> string) list" where
  "long_to_compact = map (\<lambda>(key, value). (value, key)) compact_to_long"

subsection \<open>The message object\<close>

text \<open>
  What \<open>message.py\<close> takes from the rest of the package and from the libraries, as
  parameters: \<open>str\<close> of a contact and \<open>Contact.from_header\<close> (\<open>contact.py\<close>), the text
  \<open>utils.format_host_and_port\<close> gives for the host and port of a contact's URI, the
  \<open>short_uri\<close> of a contact's URI, the outcome of \<open>utils.gen_branch(10)\<close> and of
  \<open>uuid.uuid4()\<close>, the table \<open>utils.STATUS\<close>, and the encoding of a text into bytes with
  the arguments given to \<open>encode\<close>, with the decoding back.
\<close>

record 'c env =
  contact_str :: "'c \<Rightarrow> string"
  contact_from_header :: "hval \<Rightarrow> error + 'c"
  host_and_port :: "'c \<Rightarrow> string"
  short_uri :: "'c \<Rightarrow> string"
  gen_branch :: string
  uuid4 :: string
  STATUS :: "int \<Rightarrow> string option"
  str_encode :: "string \<Rightarrow> string"
  bytes_decode :: "string \<Rightarrow> string"

text \<open>
  A message object: its header map and its attributes. An attribute that
  \<open>hasattr\<close> does not find is \<open>None\<close>; \<open>_contact_details\<close> can be set to \<open>None\<close>, which
  is \<open>Some None\<close>. \<open>m_compact\<close> tells a \<open>CompactHeaderResponse\<close>; \<open>m_status_code\<close> and
  \<open>m_status_message\<close> are those of a response, \<open>m_first_line\<close> that of a request or a
  response.
\<close>

record 'c message =
  m_headers :: headers
  m_from_details :: "'c option"
  m_to_details :: "'c option"
  m_contact_details :: "'c option option"
  m_cseq :: "int option"
  m_method :: "string option"
  m_payload :: "string option"
  m_raw_payload :: "string option"
  m_first_line :: "string option"
  m_status_code :: "int option"
  m_status_message :: "string option"
  m_compact :: bool

text \<open>The truth value of an optional string: \<open>None\<close> and the empty string are false.\<close>

definition truthy :: "string option \<Rightarrow> bool" where
  "truthy so = (case so of None \<Rightarrow> False | Some s \<Rightarrow> s \<noteq> [])"

subsection \<open>The accessors\<close>

text \<open>
  Each accessor returns its value and the object, which has cached the value when it was
  read from the headers.
\<close>

definition contact_details :: "'c env \<Rightarrow> 'c message \<Rightarrow> error + ('c option \<times> 'c message)" where
  "contact_details env m =
     (case m_contact_details m of
        Some v \<Rightarrow> Inr (v, m)
      | None \<Rightarrow>
          (case get (m_headers m) ''Contact'' of
             Some h \<Rightarrow>
               (case contact_from_header env h of
                  Inl e \<Rightarrow> Inl e
                | Inr c \<Rightarrow> Inr (Some c, m\<lparr>m_contact_details := Some (Some c)\<rparr>))
           | None \<Rightarrow> Inr (None, m\<lparr>m_contact_details := Some None\<rparr>)))"

definition from_details :: "'c env \<Rightarrow> 'c message \<Rightarrow> error + ('c \<times> 'c message)" where
  "from_details env m =
     (case m_from_details m of
        Some v \<Rightarrow> Inr (v, m)
      | None \<Rightarrow>
          (case get (m_headers m) ''From'' of
             None \<Rightarrow> Inl KeyError
           | Some h \<Rightarrow>
               (case contact_from_header env h of
                  Inl e \<Rightarrow> Inl e
                | Inr c \<Rightarrow> Inr (c, m\<lparr>m_from_details := Some c\<rparr>))))"

definition to_details :: "'c env \<Rightarrow> 'c message \<Rightarrow> error + ('c \<times> 'c message)" where
  "to_details env m =
     (case m_to_details m of
        Some v \<Rightarrow> Inr (v, m)
      | None \<Rightarrow>
          (case get (m_headers m) ''To'' of
             None \<Rightarrow> Inl KeyError
           | Some h \<Rightarrow>
               (case contact_from_header env h of
                  Inl e \<Rightarrow> Inl e
                | Inr c \<Rightarrow> Inr (c, m\<lparr>m_to_details := Some c\<rparr>))))"

text \<open>\<open>self.headers['CSeq'].split(' ')\<close>: a list value has no \<open>split\<close>.\<close>

definition cseq_parts :: "'c message \<Rightarrow> error + string list" where
  "cseq_parts m =
     (case get (m_headers m) ''CSeq'' of
        None \<Rightarrow> Inl KeyError
      | Some (HList l) \<Rightarrow> Inl AttributeError
      | Some (HStr s) \<Rightarrow> Inr (split_space s))"

definition cseq :: "'c message \<Rightarrow> error + (int \<times> 'c message)" where
  "cseq m =
     (case m_cseq m of
        Some v \<Rightarrow> Inr (v, m)
      | None \<Rightarrow>
          (case cseq_parts m of
             Inl e \<Rightarrow> Inl e
           | Inr ps \<Rightarrow>
               (case py_int (hd ps) of
                  None \<Rightarrow> Inl (ValueError ''invalid literal for int()'')
                | Some i \<Rightarrow> Inr (i, m\<lparr>m_cseq := Some i\<rparr>))))"

definition method_of :: "'c message \<Rightarrow> error + (string \<times> 'c message)" where
  "method_of m =
     (case m_method m of
        Some v \<Rightarrow> Inr (v, m)
      | None \<Rightarrow>
          (case cseq_parts m of
             Inl e \<Rightarrow> Inl e
           | Inr ps \<Rightarrow>
               (case tl ps of
                  [] \<Rightarrow> Inl IndexError
                | p # _ \<Rightarrow> Inr (p, m\<lparr>m_method := Some p\<rparr>))))"


subsection \<open>The constructors\<close>

text \<open>
  \<open>Message.__init__\<close>. A header map that is given and not empty is kept. The \<open>Via\<close>
  the constructor adds reads \<open>self.contact_details\<close>; when that is \<open>None\<close>, subscripting
  it raises \<open>TypeError\<close>. A contact that is given counts as true.
\<close>

definition via_template :: "'c env \<Rightarrow> 'c \<Rightarrow> string" where
  "via_template env c = ''SIP/2.0/%(protocol)s '' @ host_and_port env c @ '';branch='' @ gen_branch env"

definition message_init ::
  "'c env \<Rightarrow> headers option \<Rightarrow> string option \<Rightarrow> 'c option \<Rightarrow> 'c option \<Rightarrow> 'c option
     \<Rightarrow> error + 'c message" where
  "message_init env headers payload_arg from_arg to_arg contact_arg =
     (let h = copy_headers headers in
      if from_arg = None \<and> \<not> contains h ''From''
        then Inl (ValueError ''From header or from_details is required'')
      else if to_arg = None \<and> \<not> contains h ''To''
        then Inl (ValueError ''To header or to_details is required'')
      else
        (let m = \<lparr>m_headers = h, m_from_details = from_arg, m_to_details = to_arg,
                  m_contact_details = (case contact_arg of None \<Rightarrow> None | Some c \<Rightarrow> Some (Some c)),
                  m_cseq = None, m_method = None, m_payload = payload_arg, m_raw_payload = None,
                  m_first_line = None, m_status_code = None, m_status_message = None,
                  m_compact = False\<rparr>
         in if \<not> contains h ''Via'' then
              (case contact_details env m of
                 Inl e \<Rightarrow> Inl e
               | Inr (None, m1) \<Rightarrow> Inl TypeError
               | Inr (Some c, m1) \<Rightarrow>
                   Inr (m1\<lparr>m_headers := setitem (m_headers m1) ''Via'' (HStr (via_template env c))\<rparr>))
            else Inr m))"

text \<open>\<open>Request.__init__\<close>\<close>

definition request_init ::
  "'c env \<Rightarrow> string \<Rightarrow> int \<Rightarrow> 'c option \<Rightarrow> 'c option \<Rightarrow> 'c option \<Rightarrow> headers option
     \<Rightarrow> string option \<Rightarrow> string option \<Rightarrow> error + 'c message" where
  "request_init env method_arg cseq_arg from_arg to_arg contact_arg headers payload_arg first_line =
     (case message_init env headers payload_arg from_arg to_arg contact_arg of
        Inl e \<Rightarrow> Inl e
      | Inr m \<Rightarrow>
          (let m1 = m\<lparr>m_method := Some (upper method_arg), m_cseq := Some cseq_arg\<rparr> in
           if \<not> truthy first_line then
             (case to_details env m1 of
                Inl e \<Rightarrow> Inl e
              | Inr (t, m2) \<Rightarrow>
                  Inr (m2\<lparr>m_first_line :=
                         Some (upper method_arg @ '' '' @ short_uri env t @ '' SIP/2.0'')\<rparr>))
           else Inr (m1\<lparr>m_first_line := first_line\<rparr>)))"

text \<open>
  \<open>Response.__init__\<close>; \<open>compact\<close> tells the subclass \<open>CompactHeaderResponse\<close>. A
  \<open>cseq\<close> of 0 and an empty \<open>method\<close> count as not given.
\<close>

definition response_init ::
  "'c env \<Rightarrow> bool \<Rightarrow> int \<Rightarrow> string option \<Rightarrow> headers option \<Rightarrow> 'c option \<Rightarrow> 'c option
     \<Rightarrow> 'c option \<Rightarrow> string option \<Rightarrow> int option \<Rightarrow> string option \<Rightarrow> string option
     \<Rightarrow> error + 'c message" where
  "response_init env compact status_code status_message headers from_arg to_arg contact_arg
       payload_arg cseq_arg method_arg first_line =
     (case message_init env headers payload_arg from_arg to_arg contact_arg of
        Inl e \<Rightarrow> Inl e
      | Inr m \<Rightarrow>
          (case (if truthy status_message then status_message else STATUS env status_code) of
             None \<Rightarrow> Inl KeyError
           | Some message \<Rightarrow>
               (let given = (cseq_arg \<noteq> None \<and> cseq_arg \<noteq> Some 0) in
                if \<not> given \<and> \<not> contains (m_headers m) ''CSeq''
                  then Inl (ValueError ''\"CSeq\" header or cseq is required'')
                else if \<not> truthy method_arg \<and> \<not> contains (m_headers m) ''CSeq''
                  then Inl (ValueError ''\"CSeq\" header or method is required'')
                else
                  Inr (m\<lparr>m_cseq := (if given then cseq_arg else None),
                         m_method := (if truthy method_arg then method_arg else None),
                         m_status_code := Some status_code,
                         m_status_message := Some message,
                         m_compact := compact,
                         m_first_line :=
                           (if \<not> truthy first_line
                            then Some (''SIP/2.0 '' @ str_int status_code @ '' '' @ message)
                            else first_line)\<rparr>))))"

subsection \<open>Serialisation\<close>

text \<open>The lines \<open>'%s: %s' % (k, v)\<close> of one header, one line for each value of a list.\<close>

definition header_lines :: "string \<Rightarrow> hval \<Rightarrow> string list" where
  "header_lines k v =
     (case v of HStr s \<Rightarrow> [k @ '': '' @ s] | HList l \<Rightarrow> map (\<lambda>i. k @ '': '' @ i) l)"

text \<open>The name a header is written under: its compact alias in a \<open>CompactHeaderResponse\<close>.\<close>

definition written_name :: "bool \<Rightarrow> string \<Rightarrow> string" where
  "written_name compact k =
     (if compact then (case map_of long_to_compact k of None \<Rightarrow> k | Some a \<Rightarrow> a) else k)"

text \<open>
  \<open>_format_headers\<close> of \<open>Message\<close> and of \<open>CompactHeaderResponse\<close>: the items sorted, the
  lines of a header named \<open>Via\<close> put in front of the list, those of any other header at
  its end. \<open>sorted\<close> compares the pairs of key and value; a map built by item assignment
  has no key twice, and the keys decide. The list before the joining is \<open>format_lines\<close>.
\<close>

definition format_step :: "bool \<Rightarrow> string list \<Rightarrow> string \<times> hval \<Rightarrow> string list" where
  "format_step compact msg kv =
     (case kv of (k, v) \<Rightarrow>
        if k = ''Via'' then header_lines (written_name compact k) v @ msg
        else msg @ header_lines (written_name compact k) v)"

definition format_lines :: "bool \<Rightarrow> headers \<Rightarrow> string list" where
  "format_lines compact h = foldl (format_step compact) [] (sort_key fst h)"

definition format_headers :: "bool \<Rightarrow> headers \<Rightarrow> string" where
  "format_headers compact h = join EOL (format_lines compact h @ [EOL])"

text \<open>The lines of one item of the header map, and the test \<open>k == 'Via'\<close>.\<close>

definition item_lines :: "bool \<Rightarrow> string \<times> hval \<Rightarrow> string list" where
  "item_lines compact kv = header_lines (written_name compact (fst kv)) (snd kv)"

definition is_via :: "string \<times> hval \<Rightarrow> bool" where
  "is_via kv \<longleftrightarrow> fst kv = ''Via''"

text \<open>The name at the head of a header line: the text before its first colon.\<close>

definition line_name :: "string \<Rightarrow> string" where
  "line_name l = takeWhile (\<lambda>c. c \<noteq> CHR '':'') l"

text \<open>
  \<open>_make_headers\<close>, up to the formatting, in its three steps: the contacts that are set
  are written back into the header map (\<open>write_details\<close>), then the \<open>CSeq\<close> header when
  \<open>_cseq\<close> or \<open>_method\<close> is set (\<open>set_cseq_header\<close>), then \<open>Content-Length\<close>,
  \<open>Max-Forwards\<close> and \<open>Call-ID\<close> (\<open>write_defaults\<close>). \<open>len\<close> of a raw payload that is
  still \<open>None\<close> raises \<open>TypeError\<close>.
\<close>

definition set_cseq_header :: "'c message \<Rightarrow> error + 'c message" where
  "set_cseq_header m =
     (if m_cseq m \<noteq> None \<or> m_method m \<noteq> None then
        (case cseq m of
           Inl e \<Rightarrow> Inl e
         | Inr (c, m1) \<Rightarrow>
             (case method_of m1 of
                Inl e \<Rightarrow> Inl e
              | Inr (meth, m2) \<Rightarrow>
                  Inr (m2\<lparr>m_headers := setitem (m_headers m2) ''CSeq'' (HStr (str_int c @ '' '' @ meth))\<rparr>)))
      else Inr m)"

definition str_contact :: "'c env \<Rightarrow> 'c option \<Rightarrow> string" where
  "str_contact env co = (case co of None \<Rightarrow> ''None'' | Some c \<Rightarrow> contact_str env c)"

definition write_details :: "'c env \<Rightarrow> 'c message \<Rightarrow> 'c message" where
  "write_details env m =
     (let m1 = (case m_from_details m of None \<Rightarrow> m
                | Some c \<Rightarrow> m\<lparr>m_headers := setitem (m_headers m) ''From'' (HStr (contact_str env c))\<rparr>);
          m2 = (case m_to_details m1 of None \<Rightarrow> m1
                | Some c \<Rightarrow> m1\<lparr>m_headers := setitem (m_headers m1) ''To'' (HStr (contact_str env c))\<rparr>)
      in case m_contact_details m2 of None \<Rightarrow> m2
         | Some co \<Rightarrow> m2\<lparr>m_headers := setitem (m_headers m2) ''Contact'' (HStr (str_contact env co))\<rparr>)"

definition write_defaults :: "'c env \<Rightarrow> 'c message \<Rightarrow> error + 'c message" where
  "write_defaults env m =
     (case m_raw_payload m of
        None \<Rightarrow> Inl TypeError
      | Some raw \<Rightarrow>
          (let h5 = setitem (m_headers m) ''Content-Length'' (HStr (str_int (int (length raw))));
               h6 = (if \<not> contains h5 ''Max-Forwards''
                     then setitem h5 ''Max-Forwards'' (HStr ''70'') else h5);
               h7 = (if \<not> contains h6 ''Call-ID''
                     then setitem h6 ''Call-ID'' (HStr (uuid4 env)) else h6)
           in Inr (m\<lparr>m_headers := h7\<rparr>)))"

definition make_headers :: "'c env \<Rightarrow> 'c message \<Rightarrow> error + 'c message" where
  "make_headers env m =
     (case set_cseq_header (write_details env m) of
        Inl e \<Rightarrow> Inl e
      | Inr m4 \<Rightarrow> write_defaults env m4)"

text \<open>
  \<open>encode\<close>: the raw payload is the encoded text payload when there is one, else the raw
  payload there is, else empty. \<open>encode_parts\<close> gives the lines of the header block and
  the body; \<open>encode\<close> puts the first line (of a request or a response), the header block
  and the body together.
\<close>

definition set_raw_payload :: "'c env \<Rightarrow> 'c message \<Rightarrow> 'c message" where
  "set_raw_payload env m =
     (case (if truthy (m_payload m) then m_payload m else None) of
        Some p \<Rightarrow> m\<lparr>m_raw_payload := Some (str_encode env p)\<rparr>
      | None \<Rightarrow> if \<not> truthy (m_raw_payload m) then m\<lparr>m_raw_payload := Some []\<rparr> else m)"

definition encode_parts :: "'c env \<Rightarrow> 'c message \<Rightarrow> error + ((string list \<times> string) \<times> 'c message)" where
  "encode_parts env m =
     (case make_headers env (set_raw_payload env m) of
        Inl e \<Rightarrow> Inl e
      | Inr m1 \<Rightarrow>
          Inr ((format_lines (m_compact m1) (m_headers m1),
                (case m_raw_payload m1 of None \<Rightarrow> [] | Some b \<Rightarrow> b)), m1))"

definition encode :: "'c env \<Rightarrow> 'c message \<Rightarrow> error + (string \<times> 'c message)" where
  "encode env m =
     (case encode_parts env m of
        Inl e \<Rightarrow> Inl e
      | Inr ((lines, body), m1) \<Rightarrow>
          Inr ((case m_first_line m1 of None \<Rightarrow> [] | Some l \<Rightarrow> str_encode env l @ EOL)
                 @ str_encode env (join EOL (lines @ [EOL])) @ body, m1))"

subsection \<open>Parsing\<close>

text \<open>
  \<open>Message.from_raw_headers\<close>. The header lines are those after the first; a line
  without a colon and a space cannot be unpacked. A compact name is replaced by its long
  name; a header seen again turns its value into a list. \<open>start_line\<close> is
  \<open>decoded_headers[0]\<close> and \<open>parsed_headers\<close> the map the loop builds.
\<close>

definition long_name :: "string \<Rightarrow> string" where
  "long_name k = (case map_of compact_to_long (lower k) of None \<Rightarrow> k | Some l \<Rightarrow> l)"

definition add_header :: "headers \<Rightarrow> string \<Rightarrow> string \<Rightarrow> headers" where
  "add_header h k v =
     (case get h (long_name k) of
        None \<Rightarrow> setitem h (long_name k) (HStr v)
      | Some (HStr o1) \<Rightarrow> setitem h (long_name k) (HList [o1, v])
      | Some (HList l) \<Rightarrow> setitem h (long_name k) (HList (l @ [v])))"

fun parse_lines :: "headers \<Rightarrow> string list \<Rightarrow> error + headers" where
  "parse_lines h [] = Inr h"
| "parse_lines h (line # ls) =
     (case split_colon line of
        None \<Rightarrow> Inl (ValueError ''not enough values to unpack'')
      | Some (k, v) \<Rightarrow> parse_lines (add_header h k v) ls)"

definition start_line :: "'c env \<Rightarrow> string \<Rightarrow> string" where
  "start_line env raw_headers = hd (split_eol (bytes_decode env raw_headers))"

definition parsed_headers :: "'c env \<Rightarrow> string \<Rightarrow> error + headers" where
  "parsed_headers env raw_headers = parse_lines [] (tl (split_eol (bytes_decode env raw_headers)))"

definition from_raw_headers :: "'c env \<Rightarrow> string \<Rightarrow> error + 'c message" where
  "from_raw_headers env raw_headers =
     (case parsed_headers env raw_headers of
        Inl e \<Rightarrow> Inl e
      | Inr h \<Rightarrow>
          (case match_response (start_line env raw_headers) of
             Some (code, message) \<Rightarrow>
               (case py_int code of
                  None \<Rightarrow> Inl (ValueError ''invalid literal for int()'')
                | Some status_code \<Rightarrow>
                    response_init env False status_code (Some message) (Some h) None None None None
                      None None (Some (start_line env raw_headers)))
           | None \<Rightarrow>
               (case match_request (start_line env raw_headers) of
                  Some meth \<Rightarrow>
                    (case get h ''CSeq'' of
                       None \<Rightarrow> Inl KeyError
                     | Some (HList l) \<Rightarrow> Inl AttributeError
                     | Some (HStr s) \<Rightarrow>
                         (case split_ws [] s of
                            [c, x] \<Rightarrow>
                              (case py_int c of
                                 None \<Rightarrow> Inl (ValueError ''invalid literal for int()'')
                               | Some i \<Rightarrow>
                                   request_init env meth i None None None (Some h) None
                                     (Some (start_line env raw_headers)))
                          | _ \<Rightarrow> Inl (ValueError ''wrong number of values to unpack'')))
                | None \<Rightarrow> Inl (ValueError ''Not a SIP message''))))"

section \<open>The dialogs of \<open>dialog.py\<close>\<close>

text \<open>
  A message as a dialog reads it: its class (\<open>Request\<close>, or \<open>Response\<close> with its
  \<open>status_code\<close>), the accessors \<open>method\<close> and \<open>cseq\<close>, the \<open>tag\<close> parameters of
  \<open>to_details\<close> and \<open>from_details\<close> (\<open>None\<close> when the parameter is absent), the header
  map, the payload and \<open>message.auth\<close> (what \<open>Auth.from_message\<close> found: nothing, an
  \<open>Authorization\<close> block or a \<open>WWW-Authenticate\<close> block, each a dictionary).
\<close>

datatype msg_class = RequestMsg | ResponseMsg int

datatype auth = AuthorizationAuth "(string \<times> string) list" | AuthenticateAuth "(string \<times> string) list"

record msg =
  msg_class :: msg_class
  msg_method :: string
  msg_cseq :: int
  msg_to_tag :: "string option"
  msg_from_tag :: "string option"
  msg_headers :: headers
  msg_payload :: string
  msg_auth :: "auth option"

text \<open>\<open>isinstance(msg, Response)\<close>\<close>

definition is_response :: "msg \<Rightarrow> bool" where
  "is_response m = (case msg_class m of RequestMsg \<Rightarrow> False | ResponseMsg code \<Rightarrow> True)"

text \<open>A request a dialog prepares (\<open>_prepare_request\<close>).\<close>

record request =
  req_method :: string
  req_cseq :: int
  req_to_tag :: "string option"
  req_headers :: headers

datatype CallState = Calling | Proceeding | Completed | Terminated

text \<open>
  What a dialog does to its collaborators, in the order it does it: \<open>Put\<close> is
  \<open>queue.put(msg)\<close>, \<open>SendMessage\<close> is \<open>peer.send_message\<close>, \<open>SetResult\<close> is
  \<open>_waiter.set_result\<close>, \<open>TxStart\<close> is the start of an \<open>UnreliableTransaction\<close>,
  \<open>TxIncoming\<close> and \<open>TxClose\<close> are \<open>transaction._incoming\<close> and \<open>transaction.close\<close>,
  \<open>EnsureFuture delay\<close> is the scheduling of \<open>closure()\<close>, which sleeps \<open>delay\<close> and then
  closes the dialog, \<open>Cancel delay\<close> is \<open>_closing.cancel()\<close> on the handle that was
  scheduled with that delay, and \<open>LogDebug\<close> is the debug line of a response without request.
\<close>

datatype event =
    Put msg
  | SendMessage request
  | SetResult msg
  | TxStart request
  | TxIncoming string int msg
  | TxClose string int
  | EnsureFuture int
  | Cancel int
  | LogDebug

text \<open>
  The dialog, with the part of the application it touches: \<open>app_dialogs\<close> is the registry
  \<open>app._dialogs\<close>, keyed by the frozen set \<open>dialog_id\<close>; \<open>d_self\<close> names the dialog
  object in it. \<open>d_to_tag\<close> is the \<open>tag\<close> parameter of \<open>self.to_details\<close>, which is the
  same object as \<open>original_msg.to_details\<close> (\<open>_prepare_request\<close> hands it to the request),
  so storing the tag changes \<open>dialog_id\<close>. \<open>d_transactions\<close> is the
  \<open>defaultdict(dict)\<close> from method to cseq to transaction, a transaction being given by
  its original request. \<open>d_closing\<close> is the handle \<open>_closing\<close>, \<open>d_waiter\<close> the future
  \<open>_waiter\<close> (done when it holds a message), \<open>d_queue\<close> the queue of \<open>recv\<close>.
\<close>

record dialog =
  d_cseq :: int
  d_inbound :: bool
  d_to_tag :: "string option"
  d_from_tag :: "string option"
  d_call_id :: string
  d_original_method :: string
  d_transactions :: "(string \<times> (int \<times> request) list) list"
  d_auth :: "(string \<times> string) list option"
  d_closed :: bool
  d_closing :: "int option"
  d_state :: CallState
  d_waiter :: "msg option"
  d_queue :: "msg list"
  d_self :: nat
  app_dialogs :: "string option set \<Rightarrow> nat option"
  app_user_agent :: string
  app_closing_delay :: int
  trace :: "event list"

text \<open>A Python \<open>dict\<close> as an association list: assignment keeps the place of a known key.\<close>

fun dict_set :: "('k \<times> 'v) list \<Rightarrow> 'k \<Rightarrow> 'v \<Rightarrow> ('k \<times> 'v) list" where
  "dict_set [] k v = [(k, v)]"
| "dict_set ((k', v') # al) k v = (if k' = k then (k, v) # al else (k', v') # dict_set al k v)"

text \<open>\<open>self.transactions[method]\<close>: a \<open>defaultdict\<close> inserts an empty dictionary on a miss.\<close>

definition tx_touch :: "(string \<times> (int \<times> request) list) list \<Rightarrow> string \<Rightarrow> (string \<times> (int \<times> request) list) list" where
  "tx_touch t m = (case map_of t m of None \<Rightarrow> t @ [(m, [])] | Some _ \<Rightarrow> t)"

definition tx_dict :: "(string \<times> (int \<times> request) list) list \<Rightarrow> string \<Rightarrow> (int \<times> request) list" where
  "tx_dict t m = (case map_of t m of None \<Rightarrow> [] | Some al \<Rightarrow> al)"

definition tx_set :: "(string \<times> (int \<times> request) list) list \<Rightarrow> string \<Rightarrow> int \<Rightarrow> request \<Rightarrow> (string \<times> (int \<times> request) list) list" where
  "tx_set t m c r = dict_set t m (dict_set (tx_dict t m) c r)"

definition emit :: "event list \<Rightarrow> dialog \<Rightarrow> dialog" where
  "emit es d = d\<lparr>trace := trace d @ es\<rparr>"

text \<open>\<open>await queue.put(msg)\<close>\<close>

definition enqueue :: "msg \<Rightarrow> dialog \<Rightarrow> dialog" where
  "enqueue m d = emit [Put m] (d\<lparr>d_queue := d_queue d @ [m]\<rparr>)"

text \<open>The cancellation of the pending timed close, where there is one.\<close>

definition pending :: "dialog \<Rightarrow> event list" where
  "pending d = (case d_closing d of None \<Rightarrow> [] | Some h \<Rightarrow> [Cancel h])"

text \<open>
  \<open>dialog_id\<close>: the frozen set of the To tag (or \<open>None\<close>), the From tag and the Call-ID;
  reading the From tag raises \<open>KeyError\<close> when it is absent.
\<close>

definition dialog_id :: "dialog \<Rightarrow> error + string option set" where
  "dialog_id d =
     (case d_from_tag d of
        None \<Rightarrow> Inl KeyError
      | Some f \<Rightarrow> Inr {d_to_tag d, Some f, Some (d_call_id d)})"

text \<open>
  The three lines that re-key a dialog (in \<open>_receive_response\<close> and again at the head of
  \<open>InviteDialog.receive_message\<close>): delete the old key, store the To tag of the message,
  insert under the new key. Each of the three can raise \<open>KeyError\<close>, and what was done
  before stays done.
\<close>

definition rekey :: "msg \<Rightarrow> dialog \<Rightarrow> unit outcome \<times> dialog" where
  "rekey m d =
     (case dialog_id d of
        Inl e \<Rightarrow> (Raise e, d)
      | Inr k \<Rightarrow>
          (case app_dialogs d k of
             None \<Rightarrow> (Raise KeyError, d)
           | Some _ \<Rightarrow>
               (let d1 = d\<lparr>app_dialogs := (app_dialogs d)(k := None)\<rparr> in
                case msg_to_tag m of
                  None \<Rightarrow> (Raise KeyError, d1)
                | Some t \<Rightarrow>
                    (let d2 = d1\<lparr>d_to_tag := Some t\<rparr> in
                     case dialog_id d2 of
                       Inl e \<Rightarrow> (Raise e, d2)
                     | Inr k2 \<Rightarrow>
                         (Return (), d2\<lparr>app_dialogs := (app_dialogs d2)(k2 \<mapsto> d_self d2)\<rparr>)))))"

text \<open>\<open>DialogBase._receive_response\<close>\<close>

definition receive_response :: "msg \<Rightarrow> dialog \<Rightarrow> unit outcome \<times> dialog" where
  "receive_response m d =
     (case (if d_to_tag d = None then rekey m d else (Return (), d)) of
        (Raise e, d1) \<Rightarrow> (Raise e, d1)
      | (Return _, d1) \<Rightarrow>
          (let d2 = d1\<lparr>d_transactions := tx_touch (d_transactions d1) (msg_method m)\<rparr> in
           case map_of (tx_dict (d_transactions d2) (msg_method m)) (msg_cseq m) of
             Some tx \<Rightarrow> (Return (), emit [TxIncoming (msg_method m) (msg_cseq m) m] d2)
           | None \<Rightarrow>
               (Return (), if msg_method m \<noteq> ''ACK'' then emit [LogDebug] d2 else d2)))"

text \<open>
  \<open>DialogBase._prepare_request\<close>, with the arguments the dialog code passes: the method,
  the headers, \<open>cseq\<close> and the To tag of \<open>to_details\<close> (each \<open>None\<close> when not given).
  \<open>not cseq\<close> holds for \<open>None\<close> and for \<open>0\<close>. The request class upper-cases the method.
\<close>

definition prepare_request ::
  "string \<Rightarrow> headers option \<Rightarrow> int option \<Rightarrow> string option option \<Rightarrow> dialog \<Rightarrow> request \<times> dialog" where
  "prepare_request meth hdrs cseq_arg to_arg d =
     (let d1 = (if cseq_arg = None \<or> cseq_arg = Some 0 then d\<lparr>d_cseq := d_cseq d + 1\<rparr> else d);
          h0 = copy_headers hdrs;
          h1 = (if \<not> contains h0 ''User-Agent''
                then setitem h0 ''User-Agent'' (HStr (app_user_agent d1)) else h0);
          h2 = setitem h1 ''Call-ID'' (HStr (d_call_id d1))
      in (\<lparr>req_method = upper meth,
           req_cseq = (case cseq_arg of None \<Rightarrow> d_cseq d1
                       | Some c \<Rightarrow> if c \<noteq> 0 then c else d_cseq d1),
           req_to_tag = (case to_arg of None \<Rightarrow> d_to_tag d1 | Some t \<Rightarrow> t),
           req_headers = h2\<rparr>, d1))"

text \<open>\<open>DialogBase.ack\<close>\<close>

definition ack :: "msg \<Rightarrow> headers option \<Rightarrow> dialog \<Rightarrow> unit outcome \<times> dialog" where
  "ack m hdrs d =
     (let h0 = copy_headers hdrs in
      case getitem (msg_headers m) ''Via'' of
        Inl e \<Rightarrow> (Raise e, d)
      | Inr via \<Rightarrow>
          (let (a, d1) = prepare_request ''ACK'' (Some (setitem h0 ''Via'' via))
                           (Some (msg_cseq m)) (Some (msg_to_tag m)) d
           in (Return (), emit [SendMessage a] d1)))"

text \<open>
  \<open>DialogBase.validate_auth\<close>. The digest check \<open>validate_authorization\<close> of the stored
  challenge lives in \<open>auth.py\<close> and is a parameter here; it is a method of \<open>self.auth\<close>,
  so looking it up on \<open>None\<close> raises \<open>AttributeError\<close>, and \<open>message.auth['username']\<close>
  raises \<open>KeyError\<close> when the block has no such entry.
\<close>

definition validate_auth ::
  "((string \<times> string) list \<Rightarrow> (string \<times> string) list \<Rightarrow> 'p \<Rightarrow> string \<Rightarrow> string \<Rightarrow> string \<Rightarrow> bool)
     \<Rightarrow> dialog \<Rightarrow> msg \<Rightarrow> 'p \<Rightarrow> error + bool" where
  "validate_auth validate_authorization d message password =
     (case msg_auth message of
        Some (AuthorizationAuth a) \<Rightarrow>
          (case d_auth d of
             None \<Rightarrow> Inl AttributeError
           | Some challenge \<Rightarrow>
               (case map_of a ''username'' of
                  None \<Rightarrow> Inl KeyError
                | Some username \<Rightarrow>
                    (case map_of a ''uri'' of
                       None \<Rightarrow> Inl KeyError
                     | Some uri \<Rightarrow>
                         if validate_authorization challenge a password username uri
                              (msg_payload message)
                         then Inr True
                         else if msg_method message = ''CANCEL'' then Inr True
                         else Inr False)))
      | _ \<Rightarrow> if msg_method message = ''CANCEL'' then Inr True else Inr False)"

text \<open>\<open>DialogBase.close_later\<close>\<close>

definition close_later :: "int option \<Rightarrow> dialog \<Rightarrow> dialog" where
  "close_later delay_arg d =
     (let delay = (case delay_arg of None \<Rightarrow> app_closing_delay d | Some x \<Rightarrow> x);
          d1 = (case d_closing d of None \<Rightarrow> d | Some h \<Rightarrow> emit [Cancel h] d)
      in emit [EnsureFuture delay] (d1\<lparr>d_closing := Some delay\<rparr>))"

text \<open>
  \<open>int(expire * 1.1)\<close>, in the double-precision arithmetic of Python. The integer is
  converted to the nearest double (\<open>to_53_bits\<close>: a significand of at most 53 bits and a
  binary exponent, ties to the even significand), which raises \<open>OverflowError\<close> from
  \<open>2^1024\<close> on. The double nearest to 1.1 is \<open>2476979795053773 / 2^51\<close>; the exact
  product is rounded to a double again, and \<open>int\<close> of a product that is not finite raises
  \<open>OverflowError\<close>. \<open>int\<close> truncates towards zero, and the sign does not change the
  rounding.
\<close>

definition round_half_even :: "int \<Rightarrow> int \<Rightarrow> int" where
  "round_half_even n d =
     (let q = n div d; r = n mod d in
      if 2 * r < d then q else if d < 2 * r then q + 1 else if even q then q else q + 1)"

function bit_len :: "int \<Rightarrow> nat" where
  "bit_len n = (if n \<le> 0 then 0 else Suc (bit_len (n div 2)))"
  by auto
termination
  by (relation "measure nat") auto

declare bit_len.simps [simp del]

definition to_53_bits :: "int \<Rightarrow> int \<times> nat" where
  "to_53_bits n =
     (if bit_len n \<le> 53 then (n, 0)
      else (round_half_even n (2 ^ (bit_len n - 53)), bit_len n - 53))"

definition double_1_1 :: int where
  "double_1_1 = 2476979795053773"

definition int_times_1_1 :: "int \<Rightarrow> error + int" where
  "int_times_1_1 expire =
     (case to_53_bits \<bar>expire\<bar> of (m, k) \<Rightarrow>
        if 2 ^ 1024 \<le> m * 2 ^ k then Inl OverflowError
        else
          (case to_53_bits (m * double_1_1) of (m2, j) \<Rightarrow>
             if 51 \<le> k + j then
               (if 2 ^ 1024 \<le> m2 * 2 ^ (k + j - 51) then Inl OverflowError
                else Inr (if 0 \<le> expire then m2 * 2 ^ (k + j - 51)
                          else - (m2 * 2 ^ (k + j - 51))))
             else Inr (if 0 \<le> expire then m2 div 2 ^ (51 - (k + j))
                       else - (m2 div 2 ^ (51 - (k + j))))))"

text \<open>\<open>int(msg.headers.get('Expires', 0))\<close>\<close>

definition expires_of :: "msg \<Rightarrow> error + int" where
  "expires_of m =
     (case get (msg_headers m) ''Expires'' of
        None \<Rightarrow> Inr 0
      | Some (HStr s) \<Rightarrow> (case py_int s of None \<Rightarrow> Inl (ValueError ''invalid literal for int()'') | Some i \<Rightarrow> Inr i)
      | Some (HList l) \<Rightarrow> Inl TypeError)"

text \<open>\<open>DialogBase._maybe_close\<close>\<close>

definition maybe_close :: "msg \<Rightarrow> dialog \<Rightarrow> unit outcome \<times> dialog" where
  "maybe_close m d =
     (if (msg_method m = ''REGISTER'' \<or> msg_method m = ''SUBSCRIBE'') \<and> \<not> d_inbound d then
        (case expires_of m of
           Inl e \<Rightarrow> (Raise e, d)
         | Inr expire \<Rightarrow>
             if expire \<noteq> 0 then
               (case int_times_1_1 expire of
                  Inl e \<Rightarrow> (Raise e, d)
                | Inr delay \<Rightarrow> (Return (), close_later (Some delay) d))
             else (Return (), close_later None d))
      else if msg_method m = ''NOTIFY'' then (Return (), d)
      else (Return (), close_later None d))"

text \<open>
  \<open>DialogBase._close\<close>. The key is computed inside the \<open>try\<close>, so a \<open>KeyError\<close> of
  \<open>dialog_id\<close> is swallowed like that of the deletion.
\<close>

definition close_transactions :: "(string \<times> (int \<times> request) list) list \<Rightarrow> event list" where
  "close_transactions t = concat (map (\<lambda>(m, al). map (\<lambda>(c, r). TxClose m c) al) t)"

definition close_base :: "dialog \<Rightarrow> dialog" where
  "close_base d =
     (let d1 = (case d_closing d of None \<Rightarrow> d | Some h \<Rightarrow> emit [Cancel h] d);
          d2 = emit (close_transactions (d_transactions d1)) d1
      in case dialog_id d2 of
           Inl e \<Rightarrow> d2
         | Inr k \<Rightarrow> d2\<lparr>app_dialogs := (app_dialogs d2)(k := None)\<rparr>)"

text \<open>
  \<open>DialogBase.request\<close> (with \<open>start_unreliable_transaction\<close>). What the awaited
  transaction gives, a response or an exception such as a timeout, is the argument
  \<open>answer\<close>.
\<close>

definition request :: "string \<Rightarrow> headers option \<Rightarrow> msg outcome \<Rightarrow> dialog \<Rightarrow> msg option outcome \<times> dialog" where
  "request meth hdrs answer d =
     (let (r, d1) = prepare_request meth hdrs None None d in
      if req_method r \<noteq> ''ACK'' then
        (let d2 = emit [TxStart r]
                    (d1\<lparr>d_transactions := tx_set (d_transactions d1) (req_method r) (req_cseq r) r\<rparr>)
         in case answer of
              Return resp \<Rightarrow> (Return (Some resp), d2)
            | Raise e \<Rightarrow> (Raise e, d2))
      else (Return None, emit [SendMessage r] d1))"

text \<open>
  \<open>Dialog.close\<close>. The first call marks the dialog closed; for an outbound \<open>REGISTER\<close> or
  \<open>SUBSCRIBE\<close> dialog that is not closed \<open>fast\<close> it sends the original method once more,
  with \<open>Expires\<close> set to 0 unless the caller's headers carry one, and \<open>_close\<close> runs in the
  \<open>finally\<close> clause and, when the request returned, once more after it.
\<close>

definition close :: "headers option \<Rightarrow> bool \<Rightarrow> msg outcome \<Rightarrow> dialog \<Rightarrow> msg option outcome \<times> dialog" where
  "close hdrs fast answer d =
     (if \<not> d_closed d then
        (let d1 = d\<lparr>d_closed := True\<rparr> in
         if \<not> fast \<and> \<not> d_inbound d1
            \<and> (d_original_method d1 = ''REGISTER'' \<or> d_original_method d1 = ''SUBSCRIBE'') then
           (let h0 = copy_headers hdrs;
                h1 = (if \<not> contains h0 ''Expires'' then setitem h0 ''Expires'' (HStr (str_int 0)) else h0)
            in case request (d_original_method d1) (Some h1) answer d1 of
                 (Raise e, d2) \<Rightarrow> (Raise e, close_base d2)
               | (Return result, d2) \<Rightarrow> (Return result, close_base (close_base d2)))
         else (Return None, close_base d1))
      else (Return None, d))"

text \<open>\<open>Dialog.cancel\<close>\<close>

definition cancel :: "dialog \<Rightarrow> dialog" where
  "cancel d = (let (c, d1) = prepare_request ''CANCEL'' None None None d in emit [SendMessage c] d1)"

text \<open>\<open>Dialog._receive_request\<close>\<close>

definition dialog_receive_request :: "msg \<Rightarrow> dialog \<Rightarrow> unit outcome \<times> dialog" where
  "dialog_receive_request m d =
     (let d1 = (if msg_to_tag m \<noteq> None
                then d\<lparr>app_dialogs := (app_dialogs d)({d_to_tag d, None, Some (d_call_id d)} := None)\<rparr>
                else d);
          d2 = enqueue m d1
      in maybe_close m d2)"

text \<open>\<open>Dialog.receive_message\<close>\<close>

definition dialog_receive_message :: "msg \<Rightarrow> dialog \<Rightarrow> unit outcome \<times> dialog" where
  "dialog_receive_message m d =
     (let d1 = (case d_closing d of None \<Rightarrow> d | Some h \<Rightarrow> emit [Cancel h] d);
          d2 = (if d_cseq d1 < msg_cseq m then d1\<lparr>d_cseq := msg_cseq m\<rparr> else d1)
      in if is_response m \<or> msg_method m = ''ACK'' then receive_response m d2
         else dialog_receive_request m d2)"

text \<open>\<open>InviteDialog._receive_request\<close>\<close>

definition invite_receive_request :: "msg \<Rightarrow> dialog \<Rightarrow> unit outcome \<times> dialog" where
  "invite_receive_request m d =
     (let d1 = (case msg_from_tag m of None \<Rightarrow> d | Some t \<Rightarrow> d\<lparr>d_to_tag := Some t\<rparr>);
          d2 = (if msg_method m = ''BYE'' then d1\<lparr>d_closed := True\<rparr> else d1)
      in maybe_close m d2)"

text \<open>
  \<open>InviteDialog.receive_message\<close> and its local functions. \<open>msg.status_code\<close> exists on
  responses only: on a request it raises \<open>AttributeError\<close>.
\<close>

definition set_result :: "msg \<Rightarrow> dialog \<Rightarrow> unit outcome \<times> dialog" where
  "set_result m d =
     (case ack m None d of
        (Raise e, d1) \<Rightarrow> (Raise e, d1)
      | (Return _, d1) \<Rightarrow>
          (Return (), if d_waiter d1 = None then emit [SetResult m] (d1\<lparr>d_waiter := Some m\<rparr>) else d1))"

definition handle_calling_state :: "msg \<Rightarrow> dialog \<Rightarrow> unit outcome \<times> dialog" where
  "handle_calling_state m d =
     (case msg_class m of
        RequestMsg \<Rightarrow> (Raise AttributeError, d)
      | ResponseMsg status_code \<Rightarrow>
          if 100 \<le> status_code \<and> status_code < 200 then (Return (), d\<lparr>d_state := Proceeding\<rparr>)
          else if status_code = 200 then set_result m (d\<lparr>d_state := Terminated\<rparr>)
          else if 300 \<le> status_code \<and> status_code < 700 then set_result m (d\<lparr>d_state := Completed\<rparr>)
          else (Return (), d))"

definition handle_proceeding_state :: "msg \<Rightarrow> dialog \<Rightarrow> unit outcome \<times> dialog" where
  "handle_proceeding_state m d =
     (case msg_class m of
        RequestMsg \<Rightarrow> (Raise AttributeError, d)
      | ResponseMsg status_code \<Rightarrow>
          if 100 \<le> status_code \<and> status_code < 200 then (Return (), d)
          else if status_code = 200 then set_result m (d\<lparr>d_state := Terminated\<rparr>)
          else if 300 \<le> status_code \<and> status_code < 700 then set_result m (d\<lparr>d_state := Completed\<rparr>)
          else (Return (), d))"

definition handle_completed_state :: "msg \<Rightarrow> dialog \<Rightarrow> unit outcome \<times> dialog" where
  "handle_completed_state m d = ack m None d"

definition invite_dispatch :: "msg \<Rightarrow> dialog \<Rightarrow> unit outcome \<times> dialog" where
  "invite_dispatch m d =
     (case d_state d of
        Calling \<Rightarrow> handle_calling_state m d
      | Proceeding \<Rightarrow> handle_proceeding_state m d
      | Completed \<Rightarrow> handle_completed_state m d
      | Terminated \<Rightarrow>
          if is_response m \<or> msg_method m = ''ACK'' then receive_response m d
          else invite_receive_request m d)"

definition invite_rekey :: "msg \<Rightarrow> dialog \<Rightarrow> unit outcome \<times> dialog" where
  "invite_rekey m d =
     (if d_to_tag d = None \<and> msg_to_tag m \<noteq> None then rekey m d else (Return (), d))"

definition invite_receive_message :: "msg \<Rightarrow> dialog \<Rightarrow> unit outcome \<times> dialog" where
  "invite_receive_message m d =
     (case invite_rekey m d of
        (Raise e, d1) \<Rightarrow> (Raise e, d1)
      | (Return _, d1) \<Rightarrow> invite_dispatch m (enqueue m d1))"

text \<open>
  A run of an INVITE dialog over the messages it receives one after the other; an
  exception ends the delivery of that message only and leaves the state it reached.
\<close>

fun invite_run :: "msg list \<Rightarrow> dialog \<Rightarrow> dialog" where
  "invite_run [] d = d"
| "invite_run (m # ms) d = invite_run ms (snd (invite_receive_message m d))"

text \<open>The requests a trace sent through the peer with method \<open>ACK\<close>.\<close>

definition acks :: "event list \<Rightarrow> request list" where
  "acks es = concat (map (\<lambda>e. case e of SendMessage r \<Rightarrow> (if req_method r = ''ACK'' then [r] else []) | _ \<Rightarrow> []) es)"

text \<open>
  The table of the INVITE state machine as the specification words it (section 4.5), for
  responses: the action and the next state for a state and a status code, where the table
  has a row.
\<close>

datatype action = NoAction | AckAndDeliver | AckOnly | RouteBase

definition table_4_5 :: "CallState \<Rightarrow> int \<Rightarrow> (action \<times> CallState) option" where
  "table_4_5 s code =
     (case s of
        Calling \<Rightarrow>
          if 100 \<le> code \<and> code \<le> 199 then Some (NoAction, Proceeding)
          else if code = 200 then Some (AckAndDeliver, Terminated)
          else if 300 \<le> code \<and> code \<le> 699 then Some (AckAndDeliver, Completed)
          else None
      | Proceeding \<Rightarrow>
          if 100 \<le> code \<and> code \<le> 199 then Some (NoAction, Proceeding)
          else if code = 200 then Some (AckAndDeliver, Terminated)
          else if 300 \<le> code \<and> code \<le> 699 then Some (AckAndDeliver, Completed)
          else None
      | Completed \<Rightarrow> Some (AckOnly, Completed)
      | Terminated \<Rightarrow> Some (RouteBase, Terminated))"

text \<open>What an action of the table does to a dialog that has just queued the message.\<close>

definition perform :: "action \<Rightarrow> msg \<Rightarrow> dialog \<Rightarrow> unit outcome \<times> dialog" where
  "perform a m d =
     (case a of
        NoAction \<Rightarrow> (Return (), d)
      | AckAndDeliver \<Rightarrow>
          (case ack m None d of
             (Raise e, d1) \<Rightarrow> (Raise e, d1)
           | (Return _, d1) \<Rightarrow> (Return (), emit [SetResult m] (d1\<lparr>d_waiter := Some m\<rparr>)))
      | AckOnly \<Rightarrow> ack m None d
      | RouteBase \<Rightarrow> receive_response m d)"

text \<open>
  The operations on a \<open>Dialog\<close> that touch its \<open>cseq\<close>, for a run of a dialog:
  \<open>request\<close>, \<open>ack\<close>, \<open>cancel\<close> and the delivery of a message.
\<close>

datatype op = OpRequest string "headers option" "msg outcome" | OpAck msg | OpCancel | OpReceive msg

fun dialog_step :: "op \<Rightarrow> dialog \<Rightarrow> dialog" where
  "dialog_step (OpRequest meth hdrs answer) d = snd (request meth hdrs answer d)"
| "dialog_step (OpAck m) d = snd (ack m None d)"
| "dialog_step OpCancel d = cancel d"
| "dialog_step (OpReceive m) d = snd (dialog_receive_message m d)"

fun dialog_run :: "op list \<Rightarrow> dialog \<Rightarrow> dialog" where
  "dialog_run [] d = d"
| "dialog_run (x # xs) d = dialog_run xs (dialog_step x d)"

text \<open>
  The requests that \<open>request\<close> put into transactions, in order, and their CSeq values.
\<close>

definition started :: "event list \<Rightarrow> request list" where
  "started es = concat (map (\<lambda>e. case e of TxStart r \<Rightarrow> [r] | _ \<Rightarrow> []) es)"

definition issued :: "event list \<Rightarrow> int list" where
  "issued es = map req_cseq (started es)"

text \<open>A final response: a response whose status is 200 or more.\<close>

definition is_final :: "msg \<Rightarrow> bool" where
  "is_final m = (case msg_class m of RequestMsg \<Rightarrow> False | ResponseMsg code \<Rightarrow> 200 \<le> code)"

text \<open>
  The invariant of a run: the started requests have strictly increasing CSeq values, none
  above the counter of the dialog.
\<close>

definition cseq_ok :: "dialog \<Rightarrow> bool" where
  "cseq_ok d \<longleftrightarrow> sorted_wrt (<) (issued (trace d)) \<and> list_all (\<lambda>c. c \<le> d_cseq d) (issued (trace d))"

text \<open>
  When \<open>Dialog.close\<close> sends the original method once more: not \<open>fast\<close>, an outbound
  dialog, and the original method \<open>REGISTER\<close> or \<open>SUBSCRIBE\<close>.
\<close>

definition deregisters :: "bool \<Rightarrow> dialog \<Rightarrow> bool" where
  "deregisters fast d \<longleftrightarrow>
     \<not> fast \<and> \<not> d_inbound d
     \<and> (d_original_method d = ''REGISTER'' \<or> d_original_method d = ''SUBSCRIBE'')"

text \<open>
  The teardown as seen from outside, between a dialog \<open>d\<close> and the dialog \<open>d'\<close> that a
  closing made of it: the dialog is marked closed, the pending timed close of \<open>d\<close> was
  cancelled and every transaction in the table was closed since \<open>d\<close>, and the dialog's
  id is not a key of the registry.
\<close>

definition torn_down :: "dialog \<Rightarrow> dialog \<Rightarrow> bool" where
  "torn_down d d' \<longleftrightarrow>
     d_closed d'
     \<and> set (pending d) \<subseteq> set (drop (length (trace d)) (trace d'))
     \<and> set (close_transactions (d_transactions d')) \<subseteq> set (drop (length (trace d)) (trace d'))
     \<and> (case dialog_id d' of Inl e \<Rightarrow> True | Inr k \<Rightarrow> app_dialogs d' k = None)"

section \<open>Concrete dialogs and messages\<close>

text \<open>
  An outbound \<open>REGISTER\<close> dialog that has sent its first request and knows no remote tag
  yet, registered under the key with \<open>None\<close>; and the same dialog as an INVITE dialog in
  the state \<open>Calling\<close>.
\<close>

definition register_dialog :: dialog where
  "register_dialog =
     \<lparr>d_cseq = 1, d_inbound = False, d_to_tag = None, d_from_tag = Some ''a1'',
      d_call_id = ''call-1'', d_original_method = ''REGISTER'',
      d_transactions = [(''REGISTER'', [(1, \<lparr>req_method = ''REGISTER'', req_cseq = 1,
         req_to_tag = None, req_headers = [(''User-Agent'', HStr ''aiosip''), (''Call-ID'', HStr ''call-1'')]\<rparr>)])],
      d_auth = None, d_closed = False, d_closing = None, d_state = Calling, d_waiter = None,
      d_queue = [], d_self = 7,
      app_dialogs = [{None, Some ''a1'', Some ''call-1''} \<mapsto> 7],
      app_user_agent = ''aiosip'', app_closing_delay = 30, trace = []\<rparr>"

definition invite_dialog :: dialog where
  "invite_dialog = register_dialog\<lparr>d_original_method := ''INVITE'', d_transactions := []\<rparr>"

text \<open>Responses and requests as they arrive, each with a \<open>Via\<close> header.\<close>

definition response :: "int \<Rightarrow> string \<Rightarrow> int \<Rightarrow> string option \<Rightarrow> headers \<Rightarrow> msg" where
  "response code meth cs tag hs =
     \<lparr>msg_class = ResponseMsg code, msg_method = meth, msg_cseq = cs, msg_to_tag = tag,
      msg_from_tag = Some ''a1'', msg_headers = (''Via'', HStr ''SIP/2.0/UDP host;branch=z9'') # hs,
      msg_payload = [], msg_auth = None\<rparr>"

definition incoming_request :: "string \<Rightarrow> int \<Rightarrow> headers \<Rightarrow> msg" where
  "incoming_request meth cs hs =
     \<lparr>msg_class = RequestMsg, msg_method = meth, msg_cseq = cs, msg_to_tag = Some ''a1'',
      msg_from_tag = Some ''b2'', msg_headers = (''Via'', HStr ''SIP/2.0/UDP peer;branch=z8'') # hs,
      msg_payload = [], msg_auth = None\<rparr>"

definition trying :: msg where
  "trying = response 100 ''INVITE'' 1 None []"

definition ringing :: msg where
  "ringing = response 180 ''INVITE'' 1 (Some ''b2'') []"

definition ok200 :: msg where
  "ok200 = response 200 ''INVITE'' 1 (Some ''b2'') []"

definition busy_here :: msg where
  "busy_here = response 486 ''INVITE'' 1 (Some ''b2'') []"

definition bye :: msg where
  "bye = incoming_request ''BYE'' 2 []"

text \<open>
  A dialog created for an incoming \<open>REGISTER\<close>, which has not challenged yet
  (\<open>self.auth\<close> is \<open>None\<close>), and a \<open>REGISTER\<close> that brings credentials unasked.
\<close>

definition inbound_dialog :: dialog where
  "inbound_dialog = register_dialog\<lparr>d_inbound := True, d_transactions := []\<rparr>"

definition authorized_register :: msg where
  "authorized_register =
     (incoming_request ''REGISTER'' 1 [(''Authorization'', HStr ''Digest username=alice'')])
       \<lparr>msg_auth := Some (AuthorizationAuth
          [(''username'', ''alice''), (''uri'', ''sip:example.com''), (''response'', ''6629fae4'')])\<rparr>"

text \<open>A 200 that answers an INVITE sent with \<open>CSeq: 0\<close>.\<close>

definition ok200_cseq0 :: msg where
  "ok200_cseq0 = response 200 ''INVITE'' 0 (Some ''b2'') []"

text \<open>A \<open>100 Trying\<close> for the \<open>REGISTER\<close>, with no tag in its \<open>To\<close> header.\<close>

definition trying_register :: msg where
  "trying_register = response 100 ''REGISTER'' 1 None []"

text \<open>The registrar's answer to a \<open>REGISTER\<close>, and the same dialog with a timed close pending.\<close>

definition ok_register :: msg where
  "ok_register = response 200 ''REGISTER'' 2 (Some ''b2'') [(''Expires'', HStr ''0'')]"

definition expiring_dialog :: dialog where
  "expiring_dialog = register_dialog\<lparr>d_closing := Some 3960\<rparr>"

section \<open>Concrete messages\<close>

text \<open>
  An instance of the parameters: a contact is the text of its header, the identity encodes
  and decodes, and the status table knows 200.
\<close>

definition example_env :: "string env" where
  "example_env =
     \<lparr>contact_str = (\<lambda>c. c),
      contact_from_header = (\<lambda>h. case h of HStr s \<Rightarrow> Inr s | HList l \<Rightarrow> Inl TypeError),
      host_and_port = (\<lambda>c. ''10.0.0.1:5060''),
      short_uri = (\<lambda>c. ''sip:bob@example.com''),
      gen_branch = ''z9hG4bK7f3a'',
      uuid4 = ''6f1c2a9e-0b1d-4c57-9d0e-3b5a8f2c1d77'',
      STATUS = (\<lambda>code. if code = 200 then Some ''OK'' else None),
      str_encode = (\<lambda>s. s),
      bytes_decode = (\<lambda>b. b)\<rparr>"

text \<open>
  An INVITE with a payload, as \<open>Request\<close> builds it from the contacts, and the 200 that
  answers it, as \<open>Response\<close> builds it without a payload.
\<close>

definition invite_request :: "string message" where
  "invite_request =
     \<lparr>m_headers = [(''Via'', HStr ''SIP/2.0/%(protocol)s 10.0.0.1:5060;branch=z9hG4bK7f3a'')],
      m_from_details = Some ''<sip:alice@example.com>;tag=a1'',
      m_to_details = Some ''<sip:bob@example.com>'',
      m_contact_details = Some (Some ''<sip:alice@10.0.0.1>''),
      m_cseq = Some 1, m_method = Some ''INVITE'',
      m_payload = Some ''v=0'', m_raw_payload = None,
      m_first_line = Some ''INVITE sip:bob@example.com SIP/2.0'',
      m_status_code = None, m_status_message = None, m_compact = False\<rparr>"

definition ok_response :: "string message" where
  "ok_response =
     \<lparr>m_headers = [(''Via'', HStr ''SIP/2.0/UDP 10.0.0.1:5060;branch=z9hG4bK7f3a'')],
      m_from_details = Some ''<sip:alice@example.com>;tag=a1'',
      m_to_details = Some ''<sip:bob@example.com>;tag=b2'',
      m_contact_details = Some (Some ''<sip:bob@10.0.0.2>''),
      m_cseq = Some 1, m_method = Some ''INVITE'',
      m_payload = None, m_raw_payload = None,
      m_first_line = Some ''SIP/2.0 200 OK'',
      m_status_code = Some 200, m_status_message = Some ''OK'', m_compact = False\<rparr>"

text \<open>The header lines of the two messages as \<open>encode\<close> writes them, and the objects after it.\<close>

definition invite_lines :: "string list" where
  "invite_lines =
     [''Via: SIP/2.0/%(protocol)s 10.0.0.1:5060;branch=z9hG4bK7f3a'', ''CSeq: 1 INVITE'',
      ''Call-ID: 6f1c2a9e-0b1d-4c57-9d0e-3b5a8f2c1d77'', ''Contact: <sip:alice@10.0.0.1>'',
      ''Content-Length: 3'', ''From: <sip:alice@example.com>;tag=a1'', ''Max-Forwards: 70'',
      ''To: <sip:bob@example.com>'']"

definition invite_encoded :: "string message" where
  "invite_encoded =
     invite_request
       \<lparr>m_headers :=
          [(''Via'', HStr ''SIP/2.0/%(protocol)s 10.0.0.1:5060;branch=z9hG4bK7f3a''),
           (''From'', HStr ''<sip:alice@example.com>;tag=a1''),
           (''To'', HStr ''<sip:bob@example.com>''),
           (''Contact'', HStr ''<sip:alice@10.0.0.1>''),
           (''CSeq'', HStr ''1 INVITE''), (''Content-Length'', HStr ''3''),
           (''Max-Forwards'', HStr ''70''),
           (''Call-ID'', HStr ''6f1c2a9e-0b1d-4c57-9d0e-3b5a8f2c1d77'')],
        m_raw_payload := Some ''v=0''\<rparr>"

definition ok_lines :: "string list" where
  "ok_lines =
     [''Via: SIP/2.0/UDP 10.0.0.1:5060;branch=z9hG4bK7f3a'', ''CSeq: 1 INVITE'',
      ''Call-ID: 6f1c2a9e-0b1d-4c57-9d0e-3b5a8f2c1d77'', ''Contact: <sip:bob@10.0.0.2>'',
      ''Content-Length: 0'', ''From: <sip:alice@example.com>;tag=a1'', ''Max-Forwards: 70'',
      ''To: <sip:bob@example.com>;tag=b2'']"

definition ok_encoded :: "string message" where
  "ok_encoded =
     ok_response
       \<lparr>m_headers :=
          [(''Via'', HStr ''SIP/2.0/UDP 10.0.0.1:5060;branch=z9hG4bK7f3a''),
           (''From'', HStr ''<sip:alice@example.com>;tag=a1''),
           (''To'', HStr ''<sip:bob@example.com>;tag=b2''),
           (''Contact'', HStr ''<sip:bob@10.0.0.2>''),
           (''CSeq'', HStr ''1 INVITE''), (''Content-Length'', HStr ''0''),
           (''Max-Forwards'', HStr ''70''),
           (''Call-ID'', HStr ''6f1c2a9e-0b1d-4c57-9d0e-3b5a8f2c1d77'')],
        m_raw_payload := Some []\<rparr>"

text \<open>A response on the wire that carries neither \<open>Via\<close> nor \<open>Contact\<close>.\<close>

definition bare_response_headers :: string where
  "bare_response_headers =
     ''SIP/2.0 200 OK'' @ EOL @ ''From: <sip:alice@example.com>;tag=a1'' @ EOL
       @ ''To: <sip:bob@example.com>;tag=b2'' @ EOL @ ''CSeq: 1 INVITE''"

text \<open>The header map of a response that went through two proxies.\<close>

definition two_via_headers :: headers where
  "two_via_headers =
     [(''Via'', HList [''SIP/2.0/UDP proxy.example.com;branch=z9hG4bK1'',
                      ''SIP/2.0/UDP 10.0.0.1:5060;branch=z9hG4bK7f3a'']),
      (''To'', HStr ''<sip:bob@example.com>;tag=b2''),
      (''From'', HStr ''<sip:alice@example.com>;tag=a1''),
      (''CSeq'', HStr ''1 INVITE'')]"

section \<open>Reading the header block back\<close>








section \<open>Facts about the header map\<close>

lemma contains_get: "contains h k \<longleftrightarrow> get h k \<noteq> None"
  by (induction h) (auto simp: contains_def)

lemma getitem_contains: "contains h k \<Longrightarrow> \<exists>v. getitem h k = Inr v"
  by (auto simp: contains_get getitem_def)

lemma ci_eq_refl [simp]: "ci_eq k k"
  by (simp add: ci_eq_def)

lemma ci_eq_sym: "ci_eq a b \<longleftrightarrow> ci_eq b a"
  by (auto simp: ci_eq_def)

lemma ci_eq_trans: "ci_eq a b \<Longrightarrow> ci_eq b c \<Longrightarrow> ci_eq a c"
  by (simp add: ci_eq_def)

lemma get_filter_other:
  "\<not> ci_eq k k' \<Longrightarrow> get (filter (\<lambda>(k'', w). \<not> ci_eq k'' k) h) k' = get h k'"
  by (induction h) (auto simp: ci_eq_def)

lemma get_setitem: "get (setitem h k v) k' = (if ci_eq k k' then Some v else get h k')"
  by (induction h) (auto simp: get_filter_other, auto simp: ci_eq_def)

lemma contains_setitem: "contains (setitem h k v) k' \<longleftrightarrow> ci_eq k k' \<or> contains h k'"
  by (simp add: contains_get get_setitem)

lemma str_int_nat: "str_int (int n) = str_nat n"
  by (simp add: str_int_def)

lemma filter_setitem_same:
  "filter (\<lambda>(k', w). ci_eq k' k) (setitem h k v) = [(k, v)]"
proof (induction h)
  case Nil
  then show ?case by simp
next
  case (Cons a h)
  obtain k0 v0 where a: "a = (k0, v0)" by (cases a)
  have "filter (\<lambda>(k', w). ci_eq k' k) (filter (\<lambda>(k'', w). \<not> ci_eq k'' k) h) = []"
    by (induction h) auto
  with Cons a show ?case by simp
qed

lemma filter_filter_other:
  "\<not> ci_eq k k' \<Longrightarrow>
   filter (\<lambda>(k'', w). ci_eq k'' k') (filter (\<lambda>(k'', w). \<not> ci_eq k'' k) h)
     = filter (\<lambda>(k'', w). ci_eq k'' k') h"
  by (induction h) (auto simp: ci_eq_def)

lemma filter_setitem_other:
  assumes "\<not> ci_eq k k'"
  shows "filter (\<lambda>(k'', w). ci_eq k'' k') (setitem h k v) = filter (\<lambda>(k'', w). ci_eq k'' k') h"
proof (induction h)
  case Nil
  with assms show ?case by simp
next
  case (Cons a h)
  obtain k0 v0 where a: "a = (k0, v0)" by (cases a)
  show ?case
  proof (cases "ci_eq k0 k")
    case True
    with assms have n: "\<not> ci_eq k0 k'" by (simp add: ci_eq_def)
    from True n assms show ?thesis
      by (simp add: a filter_filter_other del: filter_filter)
  next
    case False
    with Cons show ?thesis by (simp add: a)
  qed
qed

section \<open>Facts about messages\<close>

lemma is_response_Response [simp]: "msg_class m = ResponseMsg code \<Longrightarrow> is_response m"
  by (simp add: is_response_def)

lemma is_response_Request [simp]: "msg_class m = RequestMsg \<Longrightarrow> \<not> is_response m"
  by (simp add: is_response_def)

lemma upper_ACK: "upper ''ACK'' = ''ACK''"
  by code_simp

lemma started_append [simp]: "started (xs @ ys) = started xs @ started ys"
  by (simp add: started_def)

lemma started_Nil [simp]: "started [] = []"
  by (simp add: started_def)

lemma started_Cons [simp]:
  "started (e # es) = (case e of TxStart r \<Rightarrow> [r] | _ \<Rightarrow> []) @ started es"
  by (simp add: started_def)

section \<open>The two concrete messages, encoded\<close>

lemma encode_invite_request:
  "encode_parts example_env invite_request = Inr ((invite_lines, ''v=0''), invite_encoded)"
  by code_simp

lemma encode_ok_response:
  "encode_parts example_env ok_response = Inr ((ok_lines, []), ok_encoded)"
  by code_simp

section \<open>The INVITE state machine\<close>

subsection \<open>What the parts of a delivery leave alone\<close>

lemma acks_append [simp]: "acks (xs @ ys) = acks xs @ acks ys"
  by (simp add: acks_def)

lemma acks_Nil [simp]: "acks [] = []"
  by (simp add: acks_def)

lemma acks_Cons [simp]:
  "acks (e # es) =
     (case e of SendMessage r \<Rightarrow> (if req_method r = ''ACK'' then [r] else []) | _ \<Rightarrow> []) @ acks es"
  by (simp add: acks_def)

lemma rekey_keeps:
  assumes "rekey m d = (r, d1)"
  shows "d_state d1 = d_state d \<and> d_waiter d1 = d_waiter d \<and> trace d1 = trace d
         \<and> d_queue d1 = d_queue d \<and> d_cseq d1 = d_cseq d \<and> d_closing d1 = d_closing d"
  using assms
  by (auto simp: rekey_def Let_def split: sum.splits option.splits)

lemma invite_rekey_keeps:
  assumes "invite_rekey m d = (r, d1)"
  shows "d_state d1 = d_state d \<and> d_waiter d1 = d_waiter d \<and> trace d1 = trace d
         \<and> d_queue d1 = d_queue d \<and> d_cseq d1 = d_cseq d \<and> d_closing d1 = d_closing d"
  using assms rekey_keeps [of m d r d1]
  by (auto simp: invite_rekey_def split: if_splits)

lemma ack_keeps:
  assumes "ack m h d = (r, d1)"
  shows "d_state d1 = d_state d \<and> d_waiter d1 = d_waiter d \<and> d_queue d1 = d_queue d"
  using assms
  by (auto simp: ack_def prepare_request_def emit_def Let_def split: sum.splits if_splits)

lemma ack_acks:
  assumes "contains (msg_headers m) ''Via''"
  shows "fst (ack m h d) = Return ()
         \<and> length (acks (trace (snd (ack m h d)))) = Suc (length (acks (trace d)))"
proof -
  obtain via where "getitem (msg_headers m) ''Via'' = Inr via"
    using getitem_contains [OF assms] by blast
  then show ?thesis
    by (simp add: ack_def prepare_request_def emit_def Let_def upper_ACK)
qed

lemma receive_response_keeps:
  assumes "receive_response m d = (r, d1)"
  shows "d_state d1 = d_state d \<and> d_waiter d1 = d_waiter d \<and> d_queue d1 = d_queue d
         \<and> acks (trace d1) = acks (trace d)"
proof (cases "d_to_tag d = None")
  case True
  obtain r0 d0 where k: "rekey m d = (r0, d0)" by (cases "rekey m d")
  from rekey_keeps [OF k] assms k True show ?thesis
    by (cases r0) (auto simp: receive_response_def emit_def Let_def split: option.splits if_splits)
next
  case False
  with assms show ?thesis
    by (auto simp: receive_response_def emit_def Let_def split: option.splits if_splits)
qed

lemma close_later_keeps:
  "d_state (close_later a d) = d_state d \<and> d_waiter (close_later a d) = d_waiter d
   \<and> d_queue (close_later a d) = d_queue d \<and> acks (trace (close_later a d)) = acks (trace d)"
  by (cases "d_closing d") (simp_all add: close_later_def emit_def Let_def)

lemma maybe_close_keeps:
  assumes "maybe_close m d = (r, d1)"
  shows "d_state d1 = d_state d \<and> d_waiter d1 = d_waiter d \<and> d_queue d1 = d_queue d
         \<and> acks (trace d1) = acks (trace d)"
  using assms close_later_keeps
  by (auto simp: maybe_close_def split: if_splits sum.splits)

lemma invite_receive_request_keeps:
  assumes "invite_receive_request m d = (r, d1)"
  shows "d_state d1 = d_state d \<and> d_waiter d1 = d_waiter d \<and> d_queue d1 = d_queue d
         \<and> acks (trace d1) = acks (trace d)"
proof -
  let ?d1 = "case msg_from_tag m of None \<Rightarrow> d | Some t \<Rightarrow> d\<lparr>d_to_tag := Some t\<rparr>"
  let ?d2 = "if msg_method m = ''BYE'' then ?d1\<lparr>d_closed := True\<rparr> else ?d1"
  have "maybe_close m ?d2 = (r, d1)"
    using assms by (simp add: invite_receive_request_def Let_def)
  from maybe_close_keeps [OF this] show ?thesis
    by (auto split: option.splits if_splits)
qed

subsection \<open>The state machine against the table\<close>

lemma set_result_fresh:
  assumes "d_waiter d = None"
  shows "set_result m d =
     (case ack m None d of
        (Raise e, d1) \<Rightarrow> (Raise e, d1)
      | (Return _, d1) \<Rightarrow> (Return (), emit [SetResult m] (d1\<lparr>d_waiter := Some m\<rparr>)))"
proof -
  obtain r d1 where a: "ack m None d = (r, d1)" by (cases "ack m None d")
  from ack_keeps [OF a] assms have "d_waiter d1 = None" by simp
  with a show ?thesis by (cases r) (simp_all add: set_result_def)
qed

lemma dispatch_table:
  assumes "msg_class m = ResponseMsg code"
    and "d_state d = Calling \<or> d_state d = Proceeding \<longrightarrow> d_waiter d = None"
  shows "invite_dispatch m d =
     (case table_4_5 (d_state d) code of
        Some (a, s') \<Rightarrow> perform a m (d\<lparr>d_state := s'\<rparr>)
      | None \<Rightarrow> (Return (), d))"
proof (cases "d_state d")
  case Calling
  with assms have w: "d_waiter d = None" by simp
  show ?thesis
    using assms(1) Calling
    by (simp add: invite_dispatch_def handle_calling_state_def table_4_5_def perform_def
        set_result_fresh w)
next
  case Proceeding
  with assms have w: "d_waiter d = None" by simp
  have same: "d\<lparr>d_state := Proceeding\<rparr> = d" using Proceeding by simp
  show ?thesis
    using assms(1) Proceeding
    by (simp add: invite_dispatch_def handle_proceeding_state_def table_4_5_def perform_def
        set_result_fresh w same)
next
  case Completed
  then have same: "d\<lparr>d_state := Completed\<rparr> = d" by simp
  show ?thesis
    using assms(1) Completed
    by (simp add: invite_dispatch_def handle_completed_state_def table_4_5_def perform_def same)
next
  case Terminated
  then have same: "d\<lparr>d_state := Terminated\<rparr> = d" by simp
  show ?thesis
    using assms(1) Terminated
    by (simp add: invite_dispatch_def table_4_5_def perform_def same)
qed


lemma ack_trace: "\<exists>es. trace (snd (ack m h d)) = trace d @ es"
  by (auto simp: ack_def prepare_request_def emit_def Let_def split: sum.splits)

lemma receive_response_trace: "\<exists>es. trace (snd (receive_response m d)) = trace d @ es"
proof (cases "d_to_tag d = None")
  case True
  obtain r0 d0 where k: "rekey m d = (r0, d0)" by (cases "rekey m d")
  from rekey_keeps [OF k] k True show ?thesis
    by (cases r0) (auto simp: receive_response_def emit_def Let_def split: option.splits if_splits)
next
  case False
  then show ?thesis
    by (auto simp: receive_response_def emit_def Let_def split: option.splits if_splits)
qed

lemma close_later_trace: "\<exists>es. trace (close_later a d) = trace d @ es"
  by (cases "d_closing d") (simp_all add: close_later_def emit_def Let_def)

lemma maybe_close_trace: "\<exists>es. trace (snd (maybe_close m d)) = trace d @ es"
  using close_later_trace
  by (auto simp: maybe_close_def split: if_splits sum.splits)

lemma invite_receive_request_trace: "\<exists>es. trace (snd (invite_receive_request m d)) = trace d @ es"
proof -
  let ?d1 = "case msg_from_tag m of None \<Rightarrow> d | Some t \<Rightarrow> d\<lparr>d_to_tag := Some t\<rparr>"
  let ?d2 = "if msg_method m = ''BYE'' then ?d1\<lparr>d_closed := True\<rparr> else ?d1"
  have t: "trace ?d2 = trace d" by (auto split: option.splits)
  have "invite_receive_request m d = maybe_close m ?d2"
    by (simp add: invite_receive_request_def Let_def)
  with maybe_close_trace [of m ?d2] t show ?thesis by simp
qed

lemma set_result_trace: "\<exists>es. trace (snd (set_result m d)) = trace d @ es"
proof -
  obtain r d1 where a: "ack m None d = (r, d1)" by (cases "ack m None d")
  with ack_trace [of m None d] show ?thesis
    by (cases r) (auto simp: set_result_def emit_def)
qed

lemma set_result_keeps:
  "d_state (snd (set_result m d)) = d_state d \<and> d_queue (snd (set_result m d)) = d_queue d"
proof -
  obtain r d1 where a: "ack m None d = (r, d1)" by (cases "ack m None d")
  with ack_keeps [OF a] show ?thesis
    by (cases r) (auto simp: set_result_def emit_def)
qed

lemma set_result_waiter:
  "d_waiter d = None \<or> d_waiter (snd (set_result m d)) = d_waiter d"
proof -
  obtain r d1 where a: "ack m None d = (r, d1)" by (cases "ack m None d")
  with ack_keeps [OF a] show ?thesis
    by (cases r) (auto simp: set_result_def emit_def)
qed

lemma invite_dispatch_trace: "\<exists>es. trace (snd (invite_dispatch m d)) = trace d @ es"
proof (cases "d_state d")
  case Calling
  then show ?thesis
    using set_result_trace [of m "d\<lparr>d_state := Terminated\<rparr>"]
      set_result_trace [of m "d\<lparr>d_state := Completed\<rparr>"]
    by (auto simp: invite_dispatch_def handle_calling_state_def split: msg_class.splits)
next
  case Proceeding
  then show ?thesis
    using set_result_trace [of m "d\<lparr>d_state := Terminated\<rparr>"]
      set_result_trace [of m "d\<lparr>d_state := Completed\<rparr>"]
    by (auto simp: invite_dispatch_def handle_proceeding_state_def split: msg_class.splits)
next
  case Completed
  then show ?thesis
    using ack_trace [of m None d]
    by (simp add: invite_dispatch_def handle_completed_state_def)
next
  case Terminated
  then show ?thesis
    using receive_response_trace [of m d] invite_receive_request_trace [of m d]
    by (simp add: invite_dispatch_def)
qed

lemma invite_dispatch_queue: "d_queue (snd (invite_dispatch m d)) = d_queue d"
proof (cases "d_state d")
  case Calling
  then show ?thesis
    using set_result_keeps [of m "d\<lparr>d_state := Terminated\<rparr>"]
      set_result_keeps [of m "d\<lparr>d_state := Completed\<rparr>"]
    by (auto simp: invite_dispatch_def handle_calling_state_def split: msg_class.splits)
next
  case Proceeding
  then show ?thesis
    using set_result_keeps [of m "d\<lparr>d_state := Terminated\<rparr>"]
      set_result_keeps [of m "d\<lparr>d_state := Completed\<rparr>"]
    by (auto simp: invite_dispatch_def handle_proceeding_state_def split: msg_class.splits)
next
  case Completed
  then show ?thesis
    using ack_keeps [of m None d] 
    by (cases "ack m None d") (simp add: invite_dispatch_def handle_completed_state_def)
next
  case Terminated
  then show ?thesis
    using receive_response_keeps [of m d] invite_receive_request_keeps [of m d]
    by (cases "receive_response m d"; cases "invite_receive_request m d")
      (simp add: invite_dispatch_def)
qed

lemma enqueue_simps [simp]:
  "d_queue (enqueue m d) = d_queue d @ [m]"
  "trace (enqueue m d) = trace d @ [Put m]"
  "d_state (enqueue m d) = d_state d"
  "d_waiter (enqueue m d) = d_waiter d"
  by (simp_all add: enqueue_def emit_def)

lemma received_first_queued:
  assumes "fst (invite_rekey m d) = Return ()"
  shows "d_queue (snd (invite_receive_message m d)) = d_queue d @ [m]
     \<and> take (Suc (length (trace d))) (trace (snd (invite_receive_message m d))) = trace d @ [Put m]"
proof -
  obtain d1 where k: "invite_rekey m d = (Return (), d1)"
    using assms by (cases "invite_rekey m d") auto
  from invite_rekey_keeps [OF k] have same: "d_queue d1 = d_queue d" "trace d1 = trace d"
    by simp_all
  have r: "invite_receive_message m d = invite_dispatch m (enqueue m d1)"
    by (simp add: invite_receive_message_def k)
  obtain es where "trace (snd (invite_dispatch m (enqueue m d1))) = trace (enqueue m d1) @ es"
    using invite_dispatch_trace by blast
  then show ?thesis
    by (simp add: r invite_dispatch_queue same)
qed


lemma set_result_acks:
  assumes "contains (msg_headers m) ''Via''"
  shows "length (acks (trace (snd (set_result m d)))) = Suc (length (acks (trace d)))"
proof -
  obtain r d1 where a: "ack m None d = (r, d1)" by (cases "ack m None d")
  with ack_acks [OF assms, of None d] show ?thesis
    by (cases r) (auto simp: set_result_def emit_def)
qed

lemma dispatch_acks:
  assumes "msg_class m = ResponseMsg code"
    and "contains (msg_headers m) ''Via''"
    and "table_4_5 (d_state d) code = Some (a, s')"
  shows "length (acks (trace (snd (invite_dispatch m d)))) =
           length (acks (trace d)) + (if a = AckAndDeliver \<or> a = AckOnly then 1 else 0)"
proof (cases "d_state d")
  case Calling
  with assms(1,3) show ?thesis
    using set_result_acks [OF assms(2), of "d\<lparr>d_state := Terminated\<rparr>"]
      set_result_acks [OF assms(2), of "d\<lparr>d_state := Completed\<rparr>"]
    by (auto simp: invite_dispatch_def handle_calling_state_def table_4_5_def split: if_splits)
next
  case Proceeding
  with assms(1,3) show ?thesis
    using set_result_acks [OF assms(2), of "d\<lparr>d_state := Terminated\<rparr>"]
      set_result_acks [OF assms(2), of "d\<lparr>d_state := Completed\<rparr>"]
    by (auto simp: invite_dispatch_def handle_proceeding_state_def table_4_5_def split: if_splits)
next
  case Completed
  with assms(1,3) show ?thesis
    using ack_acks [OF assms(2), of None d]
    by (auto simp: invite_dispatch_def handle_completed_state_def table_4_5_def)
next
  case Terminated
  obtain r d1 where rr: "receive_response m d = (r, d1)" by (cases "receive_response m d")
  from receive_response_keeps [OF rr] rr Terminated assms(1,3) show ?thesis
    by (auto simp: invite_dispatch_def table_4_5_def)
qed

lemma invite_dispatch_inv:
  assumes "d_state d = Calling \<or> d_state d = Proceeding \<longrightarrow> d_waiter d = None"
  shows "d_state (snd (invite_dispatch m d)) = Calling \<or> d_state (snd (invite_dispatch m d)) = Proceeding
           \<longrightarrow> d_waiter (snd (invite_dispatch m d)) = None"
proof (cases "d_state d")
  case Calling
  with assms show ?thesis
    using set_result_keeps [of m "d\<lparr>d_state := Terminated\<rparr>"]
      set_result_keeps [of m "d\<lparr>d_state := Completed\<rparr>"]
    by (auto simp: invite_dispatch_def handle_calling_state_def split: msg_class.splits)
next
  case Proceeding
  with assms show ?thesis
    using set_result_keeps [of m "d\<lparr>d_state := Terminated\<rparr>"]
      set_result_keeps [of m "d\<lparr>d_state := Completed\<rparr>"]
    by (auto simp: invite_dispatch_def handle_proceeding_state_def split: msg_class.splits)
next
  case Completed
  then show ?thesis
    using ack_keeps [of m None d]
    by (cases "ack m None d") (simp add: invite_dispatch_def handle_completed_state_def)
next
  case Terminated
  then show ?thesis
    using receive_response_keeps [of m d] invite_receive_request_keeps [of m d]
    by (cases "receive_response m d"; cases "invite_receive_request m d")
      (simp add: invite_dispatch_def)
qed

lemma invite_receive_message_inv:
  assumes "d_state d = Calling \<or> d_state d = Proceeding \<longrightarrow> d_waiter d = None"
  shows "d_state (snd (invite_receive_message m d)) = Calling
           \<or> d_state (snd (invite_receive_message m d)) = Proceeding
         \<longrightarrow> d_waiter (snd (invite_receive_message m d)) = None"
proof -
  obtain r d1 where k: "invite_rekey m d = (r, d1)" by (cases "invite_rekey m d")
  note same = invite_rekey_keeps [OF k]
  show ?thesis
  proof (cases r)
    case (Return u)
    have "d_state (enqueue m d1) = Calling \<or> d_state (enqueue m d1) = Proceeding
            \<longrightarrow> d_waiter (enqueue m d1) = None"
      using assms same by simp
    from invite_dispatch_inv [OF this, of m] show ?thesis
      by (simp add: invite_receive_message_def k Return)
  next
    case (Raise e)
    then show ?thesis
      using assms same by (simp add: invite_receive_message_def k)
  qed
qed

lemma invite_run_inv:
  "(d_state d = Calling \<or> d_state d = Proceeding \<longrightarrow> d_waiter d = None) \<Longrightarrow>
   (d_state (invite_run ms d) = Calling \<or> d_state (invite_run ms d) = Proceeding
      \<longrightarrow> d_waiter (invite_run ms d) = None)"
proof (induction ms arbitrary: d)
  case Nil
  then show ?case by simp
next
  case (Cons m ms)
  from Cons.IH [OF invite_receive_message_inv [OF Cons.prems, of m]] show ?case
    by simp
qed

text \<open>
  C1 (as amended). From \<open>Calling\<close>, with the waiter not yet done, the waiter stays undone
  as long as the dialog is in \<open>Calling\<close> or \<open>Proceeding\<close>. A message that passes the
  re-keying at the head of \<open>receive_message\<close> is first put on the queue. A response is then
  handled as the table of section 4.5 says for the state and the status code, where the
  table has a row: no action, ACK and delivery to the waiter, ACK only, or the base
  response handler in \<open>Terminated\<close>. It triggers exactly one ACK when the row says ACK
  (200 or 300 to 699 in \<open>Calling\<close> and \<open>Proceeding\<close>, anything in \<open>Completed\<close>) and
  none otherwise; in particular a response received in \<open>Terminated\<close> is not acknowledged.
  A request received in \<open>Terminated\<close> goes to the base response handler when it is an
  \<open>ACK\<close> and to the request handler otherwise.
\<close>

theorem invite_state_machine:
  "(d_state d0 = Calling \<and> d_waiter d0 = None \<longrightarrow>
      (d_state (invite_run ms d0) = Calling \<or> d_state (invite_run ms d0) = Proceeding
         \<longrightarrow> d_waiter (invite_run ms d0) = None))
   \<and> (fst (invite_rekey m d) = Return () \<longrightarrow>
        d_queue (snd (invite_receive_message m d)) = d_queue d @ [m]
        \<and> take (Suc (length (trace d))) (trace (snd (invite_receive_message m d))) = trace d @ [Put m])
   \<and> (fst (invite_rekey m d) = Return () \<and> msg_class m = ResponseMsg code
        \<and> (d_state d = Calling \<or> d_state d = Proceeding \<longrightarrow> d_waiter d = None)
        \<and> table_4_5 (d_state d) code = Some (a, s') \<longrightarrow>
        invite_receive_message m d = perform a m ((enqueue m (snd (invite_rekey m d)))\<lparr>d_state := s'\<rparr>))
   \<and> (fst (invite_rekey m d) = Return () \<and> msg_class m = ResponseMsg code
        \<and> contains (msg_headers m) ''Via''
        \<and> table_4_5 (d_state d) code = Some (a, s') \<longrightarrow>
        length (acks (trace (snd (invite_receive_message m d)))) =
          length (acks (trace d)) + (if a = AckAndDeliver \<or> a = AckOnly then 1 else 0))
   \<and> (fst (invite_rekey m d) = Return () \<and> msg_class m = RequestMsg \<and> d_state d = Terminated \<longrightarrow>
        invite_receive_message m d =
          (if msg_method m = ''ACK'' then receive_response m (enqueue m (snd (invite_rekey m d)))
           else invite_receive_request m (enqueue m (snd (invite_rekey m d)))))"
proof (intro conjI impI)
  assume "d_state d0 = Calling \<and> d_waiter d0 = None"
    and "d_state (invite_run ms d0) = Calling \<or> d_state (invite_run ms d0) = Proceeding"
  then show "d_waiter (invite_run ms d0) = None"
    using invite_run_inv [of d0 ms] by simp
next
  assume "fst (invite_rekey m d) = Return ()"
  from received_first_queued [OF this]
  show "d_queue (snd (invite_receive_message m d)) = d_queue d @ [m]"
    and "take (Suc (length (trace d))) (trace (snd (invite_receive_message m d))) = trace d @ [Put m]"
    by simp_all
next
  assume h: "fst (invite_rekey m d) = Return () \<and> msg_class m = ResponseMsg code
        \<and> (d_state d = Calling \<or> d_state d = Proceeding \<longrightarrow> d_waiter d = None)
        \<and> table_4_5 (d_state d) code = Some (a, s')"
  obtain d1 where k: "invite_rekey m d = (Return (), d1)"
    using h by (cases "invite_rekey m d") auto
  note same = invite_rekey_keeps [OF k]
  have w: "d_state (enqueue m d1) = Calling \<or> d_state (enqueue m d1) = Proceeding
             \<longrightarrow> d_waiter (enqueue m d1) = None"
    using h same by simp
  have c: "msg_class m = ResponseMsg code" using h by simp
  have t: "table_4_5 (d_state (enqueue m d1)) code = Some (a, s')" using h same by simp
  show "invite_receive_message m d = perform a m ((enqueue m (snd (invite_rekey m d)))\<lparr>d_state := s'\<rparr>)"
    using dispatch_table [OF c w] t by (simp add: invite_receive_message_def k)
next
  assume h: "fst (invite_rekey m d) = Return () \<and> msg_class m = ResponseMsg code
        \<and> contains (msg_headers m) ''Via''
        \<and> table_4_5 (d_state d) code = Some (a, s')"
  obtain d1 where k: "invite_rekey m d = (Return (), d1)"
    using h by (cases "invite_rekey m d") auto
  note same = invite_rekey_keeps [OF k]
  have c: "msg_class m = ResponseMsg code" and v: "contains (msg_headers m) ''Via''"
    using h by simp_all
  have t: "table_4_5 (d_state (enqueue m d1)) code = Some (a, s')" using h same by simp
  show "length (acks (trace (snd (invite_receive_message m d)))) =
          length (acks (trace d)) + (if a = AckAndDeliver \<or> a = AckOnly then 1 else 0)"
    using dispatch_acks [OF c v t] same by (simp add: invite_receive_message_def k)
next
  assume h: "fst (invite_rekey m d) = Return () \<and> msg_class m = RequestMsg \<and> d_state d = Terminated"
  obtain d1 where k: "invite_rekey m d = (Return (), d1)"
    using h by (cases "invite_rekey m d") auto
  note same = invite_rekey_keeps [OF k]
  show "invite_receive_message m d =
          (if msg_method m = ''ACK'' then receive_response m (enqueue m (snd (invite_rekey m d)))
           else invite_receive_request m (enqueue m (snd (invite_rekey m d))))"
    using h same by (simp add: invite_receive_message_def k invite_dispatch_def)
qed

text \<open>
  The scenario of an INVITE answered by 100, 180 and 200: the dialog is in \<open>Proceeding\<close>
  with the waiter undone, the 200 is queued, acknowledged once and delivered, the state is
  \<open>Terminated\<close>, and a \<open>BYE\<close> that follows marks the dialog closed.
\<close>

theorem invite_state_machine_witness:
  "d_waiter (invite_run [trying, ringing] invite_dialog) = None
   \<and> d_state (invite_run [trying, ringing] invite_dialog) = Proceeding
   \<and> d_queue (snd (invite_receive_message ok200 (invite_run [trying, ringing] invite_dialog)))
        = [trying, ringing, ok200]
   \<and> d_state (snd (invite_receive_message ok200 (invite_run [trying, ringing] invite_dialog))) = Terminated
   \<and> d_waiter (snd (invite_receive_message ok200 (invite_run [trying, ringing] invite_dialog))) = Some ok200
   \<and> length (acks (trace (snd (invite_receive_message ok200 (invite_run [trying, ringing] invite_dialog))))) = 1
   \<and> d_closed (snd (invite_receive_message bye (invite_run [trying, ringing, ok200] invite_dialog)))"
proof -
  let ?d = "invite_run [trying, ringing] invite_dialog"
  let ?t = "invite_run [trying, ringing, ok200] invite_dialog"
  let ?q = "(enqueue ok200 (snd (invite_rekey ok200 ?d)))\<lparr>d_state := Terminated\<rparr>"
  have h0: "d_state invite_dialog = Calling \<and> d_waiter invite_dialog = None"
    by code_simp
  have s: "d_state ?d = Proceeding"
    by code_simp
  have h1: "fst (invite_rekey ok200 ?d) = Return ()"
    by code_simp
  have h2: "msg_class ok200 = ResponseMsg 200 \<and> contains (msg_headers ok200) ''Via''
            \<and> table_4_5 (d_state ?d) 200 = Some (AckAndDeliver, Terminated)"
    by code_simp
  have h3: "fst (invite_rekey bye ?t) = Return () \<and> msg_class bye = RequestMsg \<and> d_state ?t = Terminated
            \<and> msg_method bye \<noteq> ''ACK''"
    by code_simp
  have q: "d_queue ?d = [trying, ringing]" "acks (trace ?d) = []"
    by code_simp+
  have p: "d_state (snd (perform AckAndDeliver ok200 ?q)) = Terminated"
    "d_waiter (snd (perform AckAndDeliver ok200 ?q)) = Some ok200"
    by code_simp+
  have b: "d_closed (snd (invite_receive_request bye (enqueue bye (snd (invite_rekey bye ?t)))))"
    by code_simp
  note th = invite_state_machine [of invite_dialog "[trying, ringing]" ok200 ?d 200 AckAndDeliver Terminated]
  note th' = invite_state_machine [of invite_dialog "[]" bye ?t 0 NoAction Calling]
  from th h0 s have c1: "d_waiter ?d = None" by simp
  from th h1 q have c2: "d_queue (snd (invite_receive_message ok200 ?d)) = [trying, ringing, ok200]"
    by simp
  from th h1 h2 c1 have e: "invite_receive_message ok200 ?d = perform AckAndDeliver ok200 ?q"
    by simp
  from th h1 h2 q have c4: "length (acks (trace (snd (invite_receive_message ok200 ?d)))) = 1"
    by simp
  from th' h3 have "invite_receive_message bye ?t
      = invite_receive_request bye (enqueue bye (snd (invite_rekey bye ?t)))"
    by simp
  with b have c5: "d_closed (snd (invite_receive_message bye ?t))" by simp
  from c1 s c2 e p c4 c5 show ?thesis by simp
qed

text \<open>
  C1 as stated fails in its last part: a second 200 arrives in \<open>Terminated\<close>, goes to
  the base response handler and is not acknowledged. Two final responses, one ACK.
\<close>

theorem final_response_in_terminated_not_acked:
  "length (filter is_final [ok200, ok200]) = 2
   \<and> d_state (invite_run [ok200] invite_dialog) = Terminated
   \<and> length (acks (trace (invite_run [ok200, ok200] invite_dialog))) = 1"
  by code_simp

section \<open>Re-keying\<close>

text \<open>
  With the remote tag unknown, the old key registered and a \<open>To\<close> tag in the message, the
  three steps of the re-keying happen within the one delivery.
\<close>

lemma rekey_done:
  assumes "d_to_tag d = None" and "d_from_tag d = Some f"
    and "app_dialogs d {None, Some f, Some (d_call_id d)} = Some x" and "msg_to_tag m = Some t"
  shows "rekey m d =
     (Return (), d\<lparr>d_to_tag := Some t,
                    app_dialogs := ((app_dialogs d)({None, Some f, Some (d_call_id d)} := None))
                                     ({Some t, Some f, Some (d_call_id d)} \<mapsto> d_self d)\<rparr>)"
  using assms by (simp add: rekey_def dialog_id_def)

text \<open>
  C5, at the input where the code leaves it: a response without a \<open>To\<close> tag reaches
  \<open>_receive_response\<close> of a dialog whose remote tag is unknown. The old key is deleted,
  then reading the tag of the message raises \<open>KeyError\<close>: the dialog is left out of the
  registry. The head of \<open>InviteDialog.receive_message\<close> tests for the tag and leaves the
  registry alone on the same message.
\<close>

theorem receive_response_without_to_tag:
  "app_dialogs register_dialog {None, Some ''a1'', Some ''call-1''} = Some 7
   \<and> fst (dialog_receive_message trying_register register_dialog) = Raise KeyError
   \<and> d_to_tag (snd (dialog_receive_message trying_register register_dialog)) = None
   \<and> app_dialogs (snd (dialog_receive_message trying_register register_dialog))
        {None, Some ''a1'', Some ''call-1''} = None
   \<and> fst (invite_receive_message trying invite_dialog) = Return ()
   \<and> app_dialogs (snd (invite_receive_message trying invite_dialog))
        {None, Some ''a1'', Some ''call-1''} = Some 7"
  by code_simp


section \<open>CSeq\<close>

text \<open>An ACK for a response with a non-zero \<open>CSeq\<close> carries it and leaves the counter.\<close>

lemma ack_retains_cseq:
  assumes "getitem (msg_headers m) ''Via'' = Inr via" and "msg_cseq m \<noteq> 0"
  shows "map req_cseq (acks (trace (snd (ack m h d)))) = map req_cseq (acks (trace d)) @ [msg_cseq m]
         \<and> d_cseq (snd (ack m h d)) = d_cseq d"
  using assms by (simp add: ack_def prepare_request_def emit_def Let_def upper_ACK)

lemma cseq_ok_same:
  assumes "cseq_ok d" and "issued (trace d') = issued (trace d)" and "d_cseq d \<le> d_cseq d'"
  shows "cseq_ok d'"
  using assms by (auto simp: cseq_ok_def list_all_iff)

lemma cseq_ok_next:
  assumes "cseq_ok d" and "issued (trace d') = issued (trace d) @ [d_cseq d + 1]"
    and "d_cseq d' = d_cseq d + 1"
  shows "cseq_ok d'"
  using assms by (auto simp: cseq_ok_def list_all_iff sorted_wrt_append)

lemma request_cseq_ok: "cseq_ok d \<Longrightarrow> cseq_ok (snd (request meth hdrs answer d))"
proof -
  assume ok: "cseq_ok d"
  show ?thesis
  proof (cases "upper meth = ''ACK''")
    case True
    then have "issued (trace (snd (request meth hdrs answer d))) = issued (trace d)"
      and "d_cseq d \<le> d_cseq (snd (request meth hdrs answer d))"
      by (simp_all add: request_def prepare_request_def emit_def Let_def issued_def)
    with ok show ?thesis by (rule cseq_ok_same)
  next
    case False
    then have "issued (trace (snd (request meth hdrs answer d))) = issued (trace d) @ [d_cseq d + 1]"
      and "d_cseq (snd (request meth hdrs answer d)) = d_cseq d + 1"
      by (cases answer; simp add: request_def prepare_request_def emit_def Let_def issued_def)+
    with ok show ?thesis by (rule cseq_ok_next)
  qed
qed

lemma ack_cseq_ok: "cseq_ok d \<Longrightarrow> cseq_ok (snd (ack m h d))"
proof -
  assume ok: "cseq_ok d"
  have "issued (trace (snd (ack m h d))) = issued (trace d)"
    and "d_cseq d \<le> d_cseq (snd (ack m h d))"
    by (auto simp: ack_def prepare_request_def emit_def Let_def issued_def split: sum.splits)
  with ok show ?thesis by (rule cseq_ok_same)
qed

lemma cancel_cseq_ok: "cseq_ok d \<Longrightarrow> cseq_ok (cancel d)"
proof -
  assume ok: "cseq_ok d"
  have "issued (trace (cancel d)) = issued (trace d)" and "d_cseq d \<le> d_cseq (cancel d)"
    by (simp_all add: cancel_def prepare_request_def emit_def Let_def issued_def)
  with ok show ?thesis by (rule cseq_ok_same)
qed

lemma rekey_issued:
  assumes "rekey m d = (r, d1)"
  shows "issued (trace d1) = issued (trace d) \<and> d_cseq d1 = d_cseq d"
  using assms
  by (auto simp: rekey_def Let_def split: sum.splits option.splits)

lemma receive_response_issued:
  "issued (trace (snd (receive_response m d))) = issued (trace d)
   \<and> d_cseq (snd (receive_response m d)) = d_cseq d"
proof (cases "d_to_tag d = None")
  case True
  obtain r0 d0 where k: "rekey m d = (r0, d0)" by (cases "rekey m d")
  from rekey_issued [OF k] k True show ?thesis
    by (cases r0) (auto simp: receive_response_def emit_def Let_def issued_def split: option.splits if_splits)
next
  case False
  then show ?thesis
    by (auto simp: receive_response_def emit_def Let_def issued_def split: option.splits if_splits)
qed

lemma close_later_issued:
  "issued (trace (close_later a d)) = issued (trace d) \<and> d_cseq (close_later a d) = d_cseq d"
  by (cases "d_closing d") (simp_all add: close_later_def emit_def Let_def issued_def)

lemma maybe_close_issued:
  "issued (trace (snd (maybe_close m d))) = issued (trace d) \<and> d_cseq (snd (maybe_close m d)) = d_cseq d"
  using close_later_issued
  by (auto simp: maybe_close_def split: if_splits sum.splits)

lemma dialog_receive_request_issued:
  "issued (trace (snd (dialog_receive_request m d))) = issued (trace d)
   \<and> d_cseq (snd (dialog_receive_request m d)) = d_cseq d"
proof -
  let ?d1 = "if msg_to_tag m \<noteq> None
             then d\<lparr>app_dialogs := (app_dialogs d)({d_to_tag d, None, Some (d_call_id d)} := None)\<rparr>
             else d"
  have "dialog_receive_request m d = maybe_close m (enqueue m ?d1)"
    by (simp add: dialog_receive_request_def Let_def)
  moreover have "issued (trace (enqueue m ?d1)) = issued (trace d)" "d_cseq (enqueue m ?d1) = d_cseq d"
    by (simp_all add: enqueue_def emit_def issued_def)
  ultimately show ?thesis
    using maybe_close_issued [of m "enqueue m ?d1"] by simp
qed

lemma dialog_receive_message_cseq_ok: "cseq_ok d \<Longrightarrow> cseq_ok (snd (dialog_receive_message m d))"
proof -
  assume ok: "cseq_ok d"
  define d1 where "d1 = (case d_closing d of None \<Rightarrow> d | Some h \<Rightarrow> emit [Cancel h] d)"
  define d2 where "d2 = (if d_cseq d1 < msg_cseq m then d1\<lparr>d_cseq := msg_cseq m\<rparr> else d1)"
  have a: "issued (trace d2) = issued (trace d)" "d_cseq d \<le> d_cseq d2"
    by (auto simp: d1_def d2_def emit_def issued_def split: option.splits)
  have "dialog_receive_message m d =
          (if is_response m \<or> msg_method m = ''ACK'' then receive_response m d2
           else dialog_receive_request m d2)"
    by (simp add: dialog_receive_message_def Let_def d1_def d2_def)
  then have "issued (trace (snd (dialog_receive_message m d))) = issued (trace d2)
        \<and> d_cseq (snd (dialog_receive_message m d)) = d_cseq d2"
    using receive_response_issued [of m d2] dialog_receive_request_issued [of m d2]
    by simp
  with a have "issued (trace (snd (dialog_receive_message m d))) = issued (trace d)"
    and "d_cseq d \<le> d_cseq (snd (dialog_receive_message m d))"
    by simp_all
  with ok show ?thesis by (rule cseq_ok_same)
qed

lemma dialog_step_cseq_ok: "cseq_ok d \<Longrightarrow> cseq_ok (dialog_step x d)"
  by (cases x)
    (simp_all add: request_cseq_ok ack_cseq_ok cancel_cseq_ok dialog_receive_message_cseq_ok)

lemma dialog_run_cseq_ok: "cseq_ok d \<Longrightarrow> cseq_ok (dialog_run xs d)"
  by (induction xs arbitrary: d) (simp_all add: dialog_step_cseq_ok)

text \<open>
  Over any run of requests, ACKs, cancels and deliveries, the requests started by
  \<open>request\<close> carry strictly increasing CSeq values.
\<close>

lemma request_cseq_strictly_increasing:
  assumes "trace d = []"
  shows "sorted_wrt (<) (issued (trace (dialog_run xs d)))"
proof -
  have "cseq_ok d" using assms by (simp add: cseq_ok_def issued_def)
  from dialog_run_cseq_ok [OF this, of xs] show ?thesis by (simp add: cseq_ok_def)
qed

text \<open>
  C6, at the input where the code leaves it: the acknowledged response has \<open>CSeq\<close> 0.
  \<open>_prepare_request\<close> tests \<open>not cseq\<close>, which holds for 0 as for \<open>None\<close>: the counter
  is incremented and the ACK carries the counter, not the \<open>CSeq\<close> of the response.
\<close>

theorem ack_of_cseq_zero:
  "msg_cseq ok200_cseq0 = 0
   \<and> d_cseq invite_dialog = 1
   \<and> map req_cseq (acks (trace (snd (ack ok200_cseq0 None invite_dialog)))) = [2]
   \<and> d_cseq (snd (ack ok200_cseq0 None invite_dialog)) = 2"
  by code_simp

section \<open>The closing policy\<close>

lemma expires_of_absent: "get (msg_headers m) ''Expires'' = None \<Longrightarrow> expires_of m = Inr 0"
  by (simp add: expires_of_def)

lemma expires_of_value:
  "get (msg_headers m) ''Expires'' = Some (HStr s) \<Longrightarrow> py_int s = Some e \<Longrightarrow> expires_of m = Inr e"
  by (simp add: expires_of_def)

lemma close_later_eq:
  "close_later a d = d\<lparr>d_closing := Some (case a of None \<Rightarrow> app_closing_delay d | Some x \<Rightarrow> x),
       trace := trace d @ pending d @ [EnsureFuture (case a of None \<Rightarrow> app_closing_delay d | Some x \<Rightarrow> x)]\<rparr>"
  by (cases "d_closing d") (simp_all add: close_later_def pending_def emit_def Let_def)

text \<open>
  C4 (as amended). \<open>_maybe_close\<close> on an outbound dialog and a \<open>REGISTER\<close> or
  \<open>SUBSCRIBE\<close> message with an \<open>Expires\<close> that is not zero schedules the close after
  \<open>int(Expires * 1.1)\<close>, the double-precision product truncated, and raises
  \<open>OverflowError\<close> when that product is not finite; with \<open>Expires\<close> zero or absent it
  schedules the close after the application's default closing delay. \<open>NOTIFY\<close> schedules
  nothing; every other message schedules the close after the default delay. Whenever a
  close is scheduled, the pending handle is cancelled first.
\<close>

theorem maybe_close_policy:
  "((msg_method m = ''REGISTER'' \<or> msg_method m = ''SUBSCRIBE'') \<and> \<not> d_inbound d
      \<and> get (msg_headers m) ''Expires'' = Some (HStr s) \<and> py_int s = Some e \<and> e \<noteq> 0
      \<and> int_times_1_1 e = Inr delay
     \<longrightarrow> maybe_close m d =
          (Return (), d\<lparr>d_closing := Some delay,
                         trace := trace d @ pending d @ [EnsureFuture delay]\<rparr>))
   \<and> ((msg_method m = ''REGISTER'' \<or> msg_method m = ''SUBSCRIBE'') \<and> \<not> d_inbound d
      \<and> get (msg_headers m) ''Expires'' = Some (HStr s) \<and> py_int s = Some e \<and> e \<noteq> 0
      \<and> int_times_1_1 e = Inl err
     \<longrightarrow> maybe_close m d = (Raise err, d))
   \<and> ((msg_method m = ''REGISTER'' \<or> msg_method m = ''SUBSCRIBE'') \<and> \<not> d_inbound d
      \<and> (get (msg_headers m) ''Expires'' = None
          \<or> (get (msg_headers m) ''Expires'' = Some (HStr s) \<and> py_int s = Some 0))
     \<longrightarrow> maybe_close m d =
          (Return (), d\<lparr>d_closing := Some (app_closing_delay d),
                         trace := trace d @ pending d @ [EnsureFuture (app_closing_delay d)]\<rparr>))
   \<and> (\<not> ((msg_method m = ''REGISTER'' \<or> msg_method m = ''SUBSCRIBE'') \<and> \<not> d_inbound d)
      \<and> msg_method m = ''NOTIFY''
     \<longrightarrow> maybe_close m d = (Return (), d))
   \<and> (\<not> ((msg_method m = ''REGISTER'' \<or> msg_method m = ''SUBSCRIBE'') \<and> \<not> d_inbound d)
      \<and> msg_method m \<noteq> ''NOTIFY''
     \<longrightarrow> maybe_close m d =
          (Return (), d\<lparr>d_closing := Some (app_closing_delay d),
                         trace := trace d @ pending d @ [EnsureFuture (app_closing_delay d)]\<rparr>))"
proof (intro conjI impI)
  assume "(msg_method m = ''REGISTER'' \<or> msg_method m = ''SUBSCRIBE'') \<and> \<not> d_inbound d
      \<and> get (msg_headers m) ''Expires'' = Some (HStr s) \<and> py_int s = Some e \<and> e \<noteq> 0
      \<and> int_times_1_1 e = Inr delay"
  then show "maybe_close m d =
          (Return (), d\<lparr>d_closing := Some delay,
                         trace := trace d @ pending d @ [EnsureFuture delay]\<rparr>)"
    by (simp add: maybe_close_def expires_of_value close_later_eq)
next
  assume "(msg_method m = ''REGISTER'' \<or> msg_method m = ''SUBSCRIBE'') \<and> \<not> d_inbound d
      \<and> get (msg_headers m) ''Expires'' = Some (HStr s) \<and> py_int s = Some e \<and> e \<noteq> 0
      \<and> int_times_1_1 e = Inl err"
  then show "maybe_close m d = (Raise err, d)"
    by (simp add: maybe_close_def expires_of_value)
next
  assume a: "(msg_method m = ''REGISTER'' \<or> msg_method m = ''SUBSCRIBE'') \<and> \<not> d_inbound d
      \<and> (get (msg_headers m) ''Expires'' = None
          \<or> (get (msg_headers m) ''Expires'' = Some (HStr s) \<and> py_int s = Some 0))"
  then have "expires_of m = Inr 0"
    using expires_of_absent expires_of_value by blast
  with a show "maybe_close m d =
          (Return (), d\<lparr>d_closing := Some (app_closing_delay d),
                         trace := trace d @ pending d @ [EnsureFuture (app_closing_delay d)]\<rparr>)"
    by (simp add: maybe_close_def close_later_eq)
next
  assume "\<not> ((msg_method m = ''REGISTER'' \<or> msg_method m = ''SUBSCRIBE'') \<and> \<not> d_inbound d)
      \<and> msg_method m = ''NOTIFY''"
  then show "maybe_close m d = (Return (), d)"
    by (simp add: maybe_close_def)
next
  assume "\<not> ((msg_method m = ''REGISTER'' \<or> msg_method m = ''SUBSCRIBE'') \<and> \<not> d_inbound d)
      \<and> msg_method m \<noteq> ''NOTIFY''"
  then show "maybe_close m d =
          (Return (), d\<lparr>d_closing := Some (app_closing_delay d),
                         trace := trace d @ pending d @ [EnsureFuture (app_closing_delay d)]\<rparr>)"
    by (auto simp add: maybe_close_def close_later_eq)
qed

text \<open>
  The product at some values: \<open>Expires: 3600\<close> gives 3960; the truncation is towards zero;
  from about \<open>10^15\<close> on the double product is no longer the exact one; and a number of
  400 digits cannot be converted.
\<close>

lemma int_times_1_1_values:
  "int_times_1_1 3600 = Inr 3960"
  "int_times_1_1 1 = Inr 1"
  "int_times_1_1 (- 5) = Inr (- 5)"
  "int_times_1_1 10000000000000001 = Inr 11000000000000000"
  "int_times_1_1 (10 ^ 400) = Inl OverflowError"
  by code_simp+

text \<open>\<open>int\<close> of a one followed by zeros.\<close>

lemma int_digits_zeros:
  "int_digits acc (replicate n (CHR ''0'')) = Some (acc * 10 ^ n)"
  by (induction n arbitrary: acc) (simp_all add: is_digit_def digit_val_def)

lemma dropWhile_head: "xs \<noteq> [] \<Longrightarrow> \<not> P (hd xs) \<Longrightarrow> dropWhile P xs = xs"
  by (cases xs) simp_all

lemma py_int_power_of_ten:
  "py_int (CHR ''1'' # replicate n (CHR ''0'')) = Some (10 ^ n)"
proof -
  have s: "\<not> is_space (CHR ''1'')" "\<not> is_space (CHR ''0'')"
    by (simp_all add: is_space_def)
  have "\<not> is_space (hd (rev (CHR ''1'' # replicate n (CHR ''0''))))"
    using s by (cases n) (simp_all add: hd_append)
  then have "dropWhile is_space (rev (CHR ''1'' # replicate n (CHR ''0'')))
               = rev (CHR ''1'' # replicate n (CHR ''0''))"
    by (intro dropWhile_head) simp_all
  then have "strip (CHR ''1'' # replicate n (CHR ''0'')) = CHR ''1'' # replicate n (CHR ''0'')"
    using s by (simp add: strip_def)
  then show ?thesis
    by (simp add: py_int_def int_unsigned_def int_digits_zeros is_digit_def digit_val_def)
qed

text \<open>
  The branches at concrete messages: \<open>Expires: 3600\<close> gives 3960 seconds and cancels the
  pending close; an \<open>Expires\<close> of 400 digits raises; a \<open>SUBSCRIBE\<close> answer without
  \<open>Expires\<close> gives the default 30.
\<close>

theorem maybe_close_policy_witness:
  "trace (snd (maybe_close (response 200 ''REGISTER'' 1 (Some ''b2'') [(''Expires'', HStr ''3600'')])
                 (register_dialog\<lparr>d_closing := Some 30\<rparr>)))
      = [Cancel 30, EnsureFuture 3960]
   \<and> maybe_close (response 200 ''REGISTER'' 1 (Some ''b2'')
                     [(''Expires'', HStr (CHR ''1'' # replicate 400 (CHR ''0'')))])
        register_dialog = (Raise OverflowError, register_dialog)
   \<and> trace (snd (maybe_close (response 200 ''SUBSCRIBE'' 1 (Some ''b2'') []) register_dialog))
      = [EnsureFuture 30]
   \<and> maybe_close (incoming_request ''NOTIFY'' 5 []) register_dialog = (Return (), register_dialog)
   \<and> trace (snd (maybe_close (incoming_request ''BYE'' 5 []) (register_dialog\<lparr>d_closing := Some 3960\<rparr>)))
      = [Cancel 3960, EnsureFuture 30]"
proof -
  let ?m1 = "response 200 ''REGISTER'' 1 (Some ''b2'') [(''Expires'', HStr ''3600'')]"
  let ?d1 = "register_dialog\<lparr>d_closing := Some 30\<rparr>"
  let ?big = "CHR ''1'' # replicate 400 (CHR ''0'')"
  let ?m5 = "response 200 ''REGISTER'' 1 (Some ''b2'') [(''Expires'', HStr ?big)]"
  let ?m2 = "response 200 ''SUBSCRIBE'' 1 (Some ''b2'') []"
  let ?m3 = "incoming_request ''NOTIFY'' 5 []"
  let ?m4 = "incoming_request ''BYE'' 5 []"
  let ?d4 = "register_dialog\<lparr>d_closing := Some 3960\<rparr>"
  have h1: "(msg_method ?m1 = ''REGISTER'' \<or> msg_method ?m1 = ''SUBSCRIBE'') \<and> \<not> d_inbound ?d1
      \<and> get (msg_headers ?m1) ''Expires'' = Some (HStr ''3600'') \<and> py_int ''3600'' = Some 3600
      \<and> (3600::int) \<noteq> 0 \<and> int_times_1_1 3600 = Inr 3960"
    by code_simp
  have nv: "\<not> ci_eq ''Via'' ''Expires''"
    by code_simp
  have g5: "(msg_method ?m5 = ''REGISTER'' \<or> msg_method ?m5 = ''SUBSCRIBE'') \<and> \<not> d_inbound register_dialog
      \<and> get (msg_headers ?m5) ''Expires'' = Some (HStr ?big)"
    using nv by (simp add: response_def register_dialog_def)
  have z5: "(10 ^ 400 :: int) \<noteq> 0"
    by simp
  have h5: "(msg_method ?m5 = ''REGISTER'' \<or> msg_method ?m5 = ''SUBSCRIBE'') \<and> \<not> d_inbound register_dialog
      \<and> get (msg_headers ?m5) ''Expires'' = Some (HStr ?big) \<and> py_int ?big = Some (10 ^ 400)
      \<and> (10 ^ 400 :: int) \<noteq> 0 \<and> int_times_1_1 (10 ^ 400) = Inl OverflowError"
    using g5 py_int_power_of_ten [of 400] z5 int_times_1_1_values(5) by blast
  have h2: "(msg_method ?m2 = ''REGISTER'' \<or> msg_method ?m2 = ''SUBSCRIBE'') \<and> \<not> d_inbound register_dialog
      \<and> (get (msg_headers ?m2) ''Expires'' = None
          \<or> (get (msg_headers ?m2) ''Expires'' = Some (HStr []) \<and> py_int [] = Some 0))"
    by code_simp
  have h3: "\<not> ((msg_method ?m3 = ''REGISTER'' \<or> msg_method ?m3 = ''SUBSCRIBE'') \<and> \<not> d_inbound register_dialog)
      \<and> msg_method ?m3 = ''NOTIFY''"
    by code_simp
  have h4: "\<not> ((msg_method ?m4 = ''REGISTER'' \<or> msg_method ?m4 = ''SUBSCRIBE'') \<and> \<not> d_inbound ?d4)
      \<and> msg_method ?m4 \<noteq> ''NOTIFY''"
    by code_simp
  have t: "trace register_dialog = []" "d_closing register_dialog = None"
    by (simp_all add: register_dialog_def)
  note th = maybe_close_policy
  from th [of ?m1 ?d1 "''3600''" 3600 3960] h1
  have c1: "trace (snd (maybe_close ?m1 ?d1)) = [Cancel 30, EnsureFuture 3960]"
    by (simp add: t pending_def)
  from th [of ?m5 register_dialog ?big "10 ^ 400" 0 OverflowError] h5
  have c5: "maybe_close ?m5 register_dialog = (Raise OverflowError, register_dialog)"
    by blast
  from th [of ?m2 register_dialog "[]" 0 0 OverflowError] h2
  have c2: "trace (snd (maybe_close ?m2 register_dialog)) = [EnsureFuture 30]"
    by (simp add: t pending_def register_dialog_def)
  from th [of ?m3 register_dialog "[]" 0 0 OverflowError] h3
  have c3: "maybe_close ?m3 register_dialog = (Return (), register_dialog)"
    by simp
  from th [of ?m4 ?d4 "[]" 0 0 OverflowError] h4
  have c4: "trace (snd (maybe_close ?m4 ?d4)) = [Cancel 3960, EnsureFuture 30]"
    by (simp add: t pending_def register_dialog_def)
  from c1 c5 c2 c3 c4 show ?thesis by blast
qed

text \<open>
  C4 as stated fails: with \<open>Expires\<close> absent, or zero, a \<open>REGISTER\<close> answer on an
  outbound dialog does schedule a close, after the default delay.
\<close>

theorem maybe_close_no_expires_schedules:
  "d_closing (snd (maybe_close (response 200 ''REGISTER'' 1 (Some ''b2'') []) register_dialog)) = Some 30
   \<and> trace (snd (maybe_close (response 200 ''REGISTER'' 1 (Some ''b2'') []) register_dialog)) = [EnsureFuture 30]
   \<and> trace (snd (maybe_close (response 200 ''REGISTER'' 1 (Some ''b2'') [(''Expires'', HStr ''0'')]) register_dialog))
       = [EnsureFuture 30]"
  by code_simp

section \<open>Closing a dialog\<close>

lemma str_int_0: "str_int 0 = ''0''"
  by code_simp

lemma upper_REGISTER: "upper ''REGISTER'' = ''REGISTER''"
  by code_simp

lemma upper_SUBSCRIBE: "upper ''SUBSCRIBE'' = ''SUBSCRIBE''"
  by code_simp

lemma not_ci: "\<not> ci_eq ''User-Agent'' ''Expires''" "\<not> ci_eq ''Call-ID'' ''Expires''"
  by code_simp+

subsection \<open>The teardown\<close>

lemma close_base_trace:
  "trace (close_base d) = trace d @ pending d @ close_transactions (d_transactions d)"
  by (cases "d_closing d"; cases "d_from_tag d")
    (simp_all add: close_base_def pending_def emit_def Let_def dialog_id_def)

lemma close_base_keeps:
  "d_closed (close_base d) = d_closed d \<and> d_transactions (close_base d) = d_transactions d
   \<and> d_closing (close_base d) = d_closing d \<and> dialog_id (close_base d) = dialog_id d"
  by (cases "d_closing d"; cases "d_from_tag d")
    (simp_all add: close_base_def emit_def Let_def dialog_id_def)

lemma close_base_registry:
  "dialog_id d = Inr k \<Longrightarrow> app_dialogs (close_base d) k = None"
  by (cases "d_closing d"; cases "d_from_tag d")
    (auto simp: close_base_def emit_def Let_def dialog_id_def)

lemma close_base_twice_registry:
  "dialog_id d = Inr k \<Longrightarrow> app_dialogs (close_base (close_base d)) k = None"
  using close_base_registry [of "close_base d" k] close_base_keeps [of d] by simp

text \<open>The request that the closing sends, and the state it leaves.\<close>

lemma request_started:
  assumes "upper meth \<noteq> ''ACK''"
  shows "\<exists>r. trace (snd (request meth (Some h) answer d)) = trace d @ [TxStart r]
           \<and> req_method r = upper meth
           \<and> get (req_headers r) ''Expires'' = get h ''Expires''
           \<and> fst (request meth (Some h) answer d) = (case answer of Return resp \<Rightarrow> Return (Some resp) | Raise e \<Rightarrow> Raise e)"
  using assms
  by (cases answer)
    (simp_all add: request_def prepare_request_def emit_def Let_def copy_headers_def get_setitem not_ci)

lemma prepare_request_keeps:
  "d_closed (snd (prepare_request meth hdrs c t d)) = d_closed d
   \<and> d_closing (snd (prepare_request meth hdrs c t d)) = d_closing d
   \<and> dialog_id (snd (prepare_request meth hdrs c t d)) = dialog_id d
   \<and> trace (snd (prepare_request meth hdrs c t d)) = trace d
   \<and> app_dialogs (snd (prepare_request meth hdrs c t d)) = app_dialogs d"
  by (auto simp: prepare_request_def Let_def dialog_id_def split: option.splits)

lemma request_keeps:
  "d_closed (snd (request meth hdrs answer d)) = d_closed d
   \<and> d_closing (snd (request meth hdrs answer d)) = d_closing d
   \<and> dialog_id (snd (request meth hdrs answer d)) = dialog_id d"
proof -
  obtain r d1 where p: "prepare_request meth hdrs None None d = (r, d1)"
    by (cases "prepare_request meth hdrs None None d")
  with prepare_request_keeps [of meth hdrs None None d]
  have "d_closed d1 = d_closed d \<and> d_closing d1 = d_closing d \<and> dialog_id d1 = dialog_id d"
    by simp
  then show ?thesis
    by (cases answer) (auto simp: request_def p emit_def Let_def dialog_id_def split: option.splits)
qed


lemma started_pending [simp]: "started (pending d) = []"
  by (cases "d_closing d") (simp_all add: pending_def)

lemma started_TxClose [simp]: "started (map (\<lambda>(c, r). TxClose m c) al) = []"
  by (induction al) auto

lemma started_close_transactions [simp]: "started (close_transactions t) = []"
  by (induction t) (auto simp: close_transactions_def)

lemma request_pending:
  "pending (snd (request meth hdrs answer d)) = pending d"
  using request_keeps [of meth hdrs answer d] by (simp add: pending_def)

lemma close_closed: "d_closed d \<Longrightarrow> close hdrs fast answer d = (Return None, d)"
  by (simp add: close_def)

lemma close_plain:
  assumes "\<not> d_closed d" and "\<not> deregisters fast d"
  shows "close hdrs fast answer d = (Return None, close_base (d\<lparr>d_closed := True\<rparr>))"
  using assms by (auto simp: close_def deregisters_def Let_def split: if_splits)

lemma close_deregisters:
  assumes "\<not> d_closed d" and "deregisters fast d"
  shows "close hdrs fast answer d =
     (let h0 = copy_headers hdrs;
          h1 = (if contains h0 ''Expires'' then h0 else setitem h0 ''Expires'' (HStr ''0''));
          q = request (d_original_method d) (Some h1) answer (d\<lparr>d_closed := True\<rparr>)
      in case answer of
           Raise e \<Rightarrow> (Raise e, close_base (snd q))
         | Return resp \<Rightarrow> (Return (Some resp), close_base (close_base (snd q))))"
proof -
  have c: "\<not> fast \<and> \<not> d_inbound d
        \<and> (d_original_method d = ''REGISTER'' \<or> d_original_method d = ''SUBSCRIBE'')"
    using assms(2) by (auto simp: deregisters_def split: if_splits)
  then have u: "upper (d_original_method d) \<noteq> ''ACK''"
    by (auto simp: upper_REGISTER upper_SUBSCRIBE)
  let ?h1 = "if contains (copy_headers hdrs) ''Expires'' then copy_headers hdrs
             else setitem (copy_headers hdrs) ''Expires'' (HStr ''0'')"
  obtain r where r: "fst (request (d_original_method d) (Some ?h1) answer (d\<lparr>d_closed := True\<rparr>))
       = (case answer of Return resp \<Rightarrow> Return (Some resp) | Raise e \<Rightarrow> Raise e)"
    using request_started [OF u, of ?h1 answer "d\<lparr>d_closed := True\<rparr>"] by blast
  obtain a b where q: "request (d_original_method d) (Some ?h1) answer (d\<lparr>d_closed := True\<rparr>) = (a, b)"
    by (cases "request (d_original_method d) (Some ?h1) answer (d\<lparr>d_closed := True\<rparr>)")
  with r have a: "a = (case answer of Return resp \<Rightarrow> Return (Some resp) | Raise e \<Rightarrow> Raise e)"
    by simp
  show ?thesis
    using assms(1) c q a
    by (cases answer) (auto simp: close_def Let_def str_int_0)
qed


lemma torn_down_close_base:
  assumes "trace b = trace d @ es" and "pending b = pending d" and "d_closed b"
  shows "torn_down d (close_base b)" and "torn_down d (close_base (close_base b))"
proof -
  note k = close_base_keeps [of b] close_base_keeps [of "close_base b"]
  have p: "pending (close_base b) = pending b"
    using k by (simp add: pending_def)
  have r1: "case dialog_id (close_base b) of Inl e \<Rightarrow> True | Inr k \<Rightarrow> app_dialogs (close_base b) k = None"
    using close_base_registry [of b] k by (cases "dialog_id b") simp_all
  have r2: "case dialog_id (close_base (close_base b)) of Inl e \<Rightarrow> True
            | Inr k \<Rightarrow> app_dialogs (close_base (close_base b)) k = None"
    using close_base_twice_registry [of b] k by (cases "dialog_id b") simp_all
  show "torn_down d (close_base b)"
    using assms k r1 by (auto simp: torn_down_def close_base_trace)
  show "torn_down d (close_base (close_base b))"
    using assms k r2 p by (auto simp: torn_down_def close_base_trace)
qed

lemma close_tears_down:
  assumes "\<not> d_closed d"
  shows "torn_down d (snd (close hdrs fast answer d))"
proof (cases "deregisters fast d")
  case False
  have "torn_down d (close_base (d\<lparr>d_closed := True\<rparr>))"
    by (rule torn_down_close_base(1) [where es = "[]"]) (simp_all add: pending_def)
  then show ?thesis
    by (simp add: close_plain [OF assms False])
next
  case True
  then have u: "upper (d_original_method d) \<noteq> ''ACK''"
    by (auto simp: deregisters_def upper_REGISTER upper_SUBSCRIBE)
  let ?h1 = "if contains (copy_headers hdrs) ''Expires'' then copy_headers hdrs
             else setitem (copy_headers hdrs) ''Expires'' (HStr ''0'')"
  let ?b = "snd (request (d_original_method d) (Some ?h1) answer (d\<lparr>d_closed := True\<rparr>))"
  obtain r where t: "trace ?b = trace d @ [TxStart r]"
    using request_started [OF u, of ?h1 answer "d\<lparr>d_closed := True\<rparr>"] by auto
  have p: "pending ?b = pending d"
    using request_pending [of "d_original_method d" "Some ?h1" answer "d\<lparr>d_closed := True\<rparr>"]
    by (simp add: pending_def)
  have c: "d_closed ?b"
    using request_keeps [of "d_original_method d" "Some ?h1" answer "d\<lparr>d_closed := True\<rparr>"]
    by simp
  note td = torn_down_close_base [OF t p c]
  show ?thesis
    using td by (cases answer) (simp_all add: close_deregisters [OF assms True] Let_def)
qed

lemma close_sends:
  assumes "\<not> d_closed d" and "deregisters fast d"
  shows "map req_method (started (drop (length (trace d)) (trace (snd (close hdrs fast answer d)))))
           = [d_original_method d]
     \<and> map (\<lambda>r. get (req_headers r) ''Expires'')
           (started (drop (length (trace d)) (trace (snd (close hdrs fast answer d)))))
           = [if contains (copy_headers hdrs) ''Expires'' then get (copy_headers hdrs) ''Expires''
              else Some (HStr ''0'')]
     \<and> take 1 (drop (length (trace d)) (trace (snd (close hdrs fast answer d))))
           = map TxStart (started (drop (length (trace d)) (trace (snd (close hdrs fast answer d)))))
     \<and> fst (close hdrs fast answer d)
           = (case answer of Return resp \<Rightarrow> Return (Some resp) | Raise e \<Rightarrow> Raise e)"
proof -
  from assms(2) have m: "upper (d_original_method d) = d_original_method d"
    by (auto simp: deregisters_def upper_REGISTER upper_SUBSCRIBE)
  from assms(2) have u: "upper (d_original_method d) \<noteq> ''ACK''"
    by (auto simp: deregisters_def upper_REGISTER upper_SUBSCRIBE)
  let ?h1 = "if contains (copy_headers hdrs) ''Expires'' then copy_headers hdrs
             else setitem (copy_headers hdrs) ''Expires'' (HStr ''0'')"
  let ?b = "snd (request (d_original_method d) (Some ?h1) answer (d\<lparr>d_closed := True\<rparr>))"
  obtain r where t: "trace ?b = trace d @ [TxStart r]" and rm: "req_method r = d_original_method d"
    and re: "get (req_headers r) ''Expires'' = get ?h1 ''Expires''"
    using request_started [OF u, of ?h1 answer "d\<lparr>d_closed := True\<rparr>"] m by auto
  have e: "get ?h1 ''Expires'' = (if contains (copy_headers hdrs) ''Expires''
              then get (copy_headers hdrs) ''Expires'' else Some (HStr ''0''))"
    by (simp add: get_setitem)
  show ?thesis
    using t rm re e
    by (cases answer) (simp_all add: close_deregisters [OF assms] Let_def close_base_trace)
qed

lemma close_sends_nothing:
  assumes "\<not> d_closed d" and "\<not> deregisters fast d"
  shows "started (drop (length (trace d)) (trace (snd (close hdrs fast answer d)))) = []
     \<and> fst (close hdrs fast answer d) = Return None"
  by (simp add: close_plain [OF assms] close_base_trace)

text \<open>
  C7 (as amended). \<open>Dialog.close\<close> on a closed dialog does nothing, and a first call
  leaves the dialog closed, so a second call does nothing: it is idempotent. A first call
  runs the teardown on every exit path, also when the request raises: the pending timed
  close is cancelled, every transaction in the table is closed and the dialog's id is not
  in the registry. For an outbound \<open>REGISTER\<close> or \<open>SUBSCRIBE\<close> dialog that is not closed
  \<open>fast\<close>, it first sends exactly one request of the original method, whose \<open>Expires\<close>
  is 0 unless the caller's headers carry an \<open>Expires\<close>, which is then kept; otherwise it
  sends no request.
\<close>

theorem close_teardown:
  "(d_closed d \<longrightarrow> close hdrs fast answer d = (Return None, d))
   \<and> (\<not> d_closed d \<longrightarrow>
        torn_down d (snd (close hdrs fast answer d))
        \<and> close hdrs' fast' answer' (snd (close hdrs fast answer d))
            = (Return None, snd (close hdrs fast answer d)))
   \<and> (\<not> d_closed d \<and> deregisters fast d \<longrightarrow>
        map req_method (started (drop (length (trace d)) (trace (snd (close hdrs fast answer d)))))
           = [d_original_method d]
        \<and> map (\<lambda>r. get (req_headers r) ''Expires'')
             (started (drop (length (trace d)) (trace (snd (close hdrs fast answer d)))))
           = [if contains (copy_headers hdrs) ''Expires'' then get (copy_headers hdrs) ''Expires''
              else Some (HStr ''0'')]
        \<and> take 1 (drop (length (trace d)) (trace (snd (close hdrs fast answer d))))
           = map TxStart (started (drop (length (trace d)) (trace (snd (close hdrs fast answer d)))))
        \<and> fst (close hdrs fast answer d)
           = (case answer of Return resp \<Rightarrow> Return (Some resp) | Raise e \<Rightarrow> Raise e))
   \<and> (\<not> d_closed d \<and> \<not> deregisters fast d \<longrightarrow>
        started (drop (length (trace d)) (trace (snd (close hdrs fast answer d)))) = []
        \<and> fst (close hdrs fast answer d) = Return None)"
proof (intro conjI impI)
  assume "d_closed d"
  then show "close hdrs fast answer d = (Return None, d)" by (rule close_closed)
next
  assume n: "\<not> d_closed d"
  from close_tears_down [OF n] show t: "torn_down d (snd (close hdrs fast answer d))" .
  then have "d_closed (snd (close hdrs fast answer d))" by (simp add: torn_down_def)
  then show "close hdrs' fast' answer' (snd (close hdrs fast answer d))
            = (Return None, snd (close hdrs fast answer d))"
    by (rule close_closed)
next
  assume a: "\<not> d_closed d \<and> deregisters fast d"
  then have n: "\<not> d_closed d" and g: "deregisters fast d" by simp_all
  note s = close_sends [OF n g, of hdrs answer]
  from s show "map req_method (started (drop (length (trace d)) (trace (snd (close hdrs fast answer d)))))
           = [d_original_method d]" by simp
  from s show "map (\<lambda>r. get (req_headers r) ''Expires'')
             (started (drop (length (trace d)) (trace (snd (close hdrs fast answer d)))))
           = [if contains (copy_headers hdrs) ''Expires'' then get (copy_headers hdrs) ''Expires''
              else Some (HStr ''0'')]" by simp
  from s show "take 1 (drop (length (trace d)) (trace (snd (close hdrs fast answer d))))
           = map TxStart (started (drop (length (trace d)) (trace (snd (close hdrs fast answer d)))))"
    by simp
  from s show "fst (close hdrs fast answer d)
           = (case answer of Return resp \<Rightarrow> Return (Some resp) | Raise e \<Rightarrow> Raise e)" by simp
next
  assume a: "\<not> d_closed d \<and> \<not> deregisters fast d"
  then have n: "\<not> d_closed d" and g: "\<not> deregisters fast d" by simp_all
  note s = close_sends_nothing [OF n g, of hdrs answer]
  from s show "started (drop (length (trace d)) (trace (snd (close hdrs fast answer d)))) = []" by simp
  from s show "fst (close hdrs fast answer d) = Return None" by simp
qed

text \<open>
  A closed dialog, and an outbound \<open>REGISTER\<close> dialog with a timed close pending whose
  closing request fails: the request went out with \<open>Expires: 0\<close>, the timed close was
  cancelled, both transactions were closed and the registry entry is gone.
\<close>

theorem close_teardown_witness:
  "close None False (Return ok_register) (register_dialog\<lparr>d_closed := True\<rparr>)
      = (Return None, register_dialog\<lparr>d_closed := True\<rparr>)
   \<and> torn_down expiring_dialog (snd (close None False (Raise TransactionError) expiring_dialog))
   \<and> close None False (Return ok_register) (snd (close None False (Raise TransactionError) expiring_dialog))
      = (Return None, snd (close None False (Raise TransactionError) expiring_dialog))
   \<and> map req_method (started (trace (snd (close None False (Raise TransactionError) expiring_dialog))))
      = [''REGISTER'']
   \<and> map (\<lambda>r. get (req_headers r) ''Expires'')
         (started (trace (snd (close None False (Raise TransactionError) expiring_dialog))))
      = [Some (HStr ''0'')]
   \<and> fst (close None False (Raise TransactionError) expiring_dialog) = Raise TransactionError
   \<and> started (trace (snd (close None True (Return ok_register) expiring_dialog))) = []
   \<and> map (\<lambda>e. case e of TxStart r \<Rightarrow> TxStart (r\<lparr>req_headers := []\<rparr>) | _ \<Rightarrow> e)
         (trace (snd (close None False (Raise TransactionError) expiring_dialog)))
      = [TxStart \<lparr>req_method = ''REGISTER'', req_cseq = 2, req_to_tag = None, req_headers = []\<rparr>,
         Cancel 3960, TxClose ''REGISTER'' 1, TxClose ''REGISTER'' 2]
   \<and> app_dialogs (snd (close None False (Raise TransactionError) expiring_dialog))
         {None, Some ''a1'', Some ''call-1''} = None"
proof -
  let ?c = "register_dialog\<lparr>d_closed := True\<rparr>"
  let ?x = "Raise TransactionError :: msg outcome"
  have h1: "d_closed ?c" by simp
  have h2: "\<not> d_closed expiring_dialog" by code_simp
  have h3: "deregisters False expiring_dialog" by code_simp
  have h4: "\<not> deregisters True expiring_dialog" by code_simp
  have t: "trace expiring_dialog = []" by code_simp
  have m: "d_original_method expiring_dialog = ''REGISTER''" by code_simp
  have e: "\<not> contains (copy_headers None) ''Expires''" by code_simp
  have v: "map (\<lambda>e. case e of TxStart r \<Rightarrow> TxStart (r\<lparr>req_headers := []\<rparr>) | _ \<Rightarrow> e)
         (trace (snd (close None False ?x expiring_dialog)))
      = [TxStart \<lparr>req_method = ''REGISTER'', req_cseq = 2, req_to_tag = None, req_headers = []\<rparr>,
         Cancel 3960, TxClose ''REGISTER'' 1, TxClose ''REGISTER'' 2]"
    "app_dialogs (snd (close None False ?x expiring_dialog)) {None, Some ''a1'', Some ''call-1''} = None"
    by code_simp+
  note a = close_teardown [of ?c None False "Return ok_register" None False "Return ok_register"]
  note b = close_teardown [of expiring_dialog None False ?x None False "Return ok_register"]
  note c = close_teardown [of expiring_dialog None True "Return ok_register" None False "Return ok_register"]
  from a h1 have c1: "close None False (Return ok_register) ?c = (Return None, ?c)" by blast
  from b h2 have c2: "torn_down expiring_dialog (snd (close None False ?x expiring_dialog))"
    and c3: "close None False (Return ok_register) (snd (close None False ?x expiring_dialog))
      = (Return None, snd (close None False ?x expiring_dialog))" by blast+
  from b h2 h3 have "map req_method (started (drop (length (trace expiring_dialog))
        (trace (snd (close None False ?x expiring_dialog))))) = [d_original_method expiring_dialog]"
    and "map (\<lambda>r. get (req_headers r) ''Expires'') (started (drop (length (trace expiring_dialog))
        (trace (snd (close None False ?x expiring_dialog)))))
      = [if contains (copy_headers None) ''Expires'' then get (copy_headers None) ''Expires''
         else Some (HStr ''0'')]"
    and "fst (close None False ?x expiring_dialog)
      = (case ?x of Return resp \<Rightarrow> Return (Some resp) | Raise e \<Rightarrow> Raise e)"
    by blast+
  then have c4: "map req_method (started (trace (snd (close None False ?x expiring_dialog)))) = [''REGISTER'']"
    and c5: "map (\<lambda>r. get (req_headers r) ''Expires'')
         (started (trace (snd (close None False ?x expiring_dialog)))) = [Some (HStr ''0'')]"
    and c6: "fst (close None False ?x expiring_dialog) = Raise TransactionError"
    using t m e by simp_all
  from c h2 h4 have "started (drop (length (trace expiring_dialog))
        (trace (snd (close None True (Return ok_register) expiring_dialog)))) = []"
    by blast
  then have c7: "started (trace (snd (close None True (Return ok_register) expiring_dialog))) = []"
    using t by simp
  from c1 c2 c3 c4 c5 c6 c7 v show ?thesis by blast
qed

text \<open>
  C7 as stated fails: called with headers that carry \<open>Expires: 600\<close>, \<open>close\<close> sends the
  \<open>REGISTER\<close> with \<open>Expires: 600\<close>, not 0.
\<close>

theorem close_keeps_callers_expires:
  "deregisters False register_dialog
   \<and> map (\<lambda>r. (req_method r, get (req_headers r) ''Expires''))
        (started (trace (snd (close (Some [(''Expires'', HStr ''600'')]) False (Return ok_register)
                               register_dialog))))
      = [(''REGISTER'', Some (HStr ''600''))]"
  by code_simp

section \<open>Credential validation\<close>

text \<open>
  With a stored challenge and a complete block, and without a block, \<open>validate_auth\<close>
  returns what the specification says.
\<close>

lemma validate_auth_with_challenge:
  assumes "d_auth d = Some challenge" and "msg_auth m = Some (AuthorizationAuth a)"
    and "map_of a ''username'' = Some username" and "map_of a ''uri'' = Some uri"
  shows "validate_auth v d m password =
           Inr (v challenge a password username uri (msg_payload m) \<or> msg_method m = ''CANCEL'')"
  using assms by (simp add: validate_auth_def)

lemma validate_auth_without_block:
  assumes "msg_auth m = None \<or> msg_auth m = Some (AuthenticateAuth a)"
  shows "validate_auth v d m password = Inr (msg_method m = ''CANCEL'')"
  using assms by (auto simp: validate_auth_def)

text \<open>
  C8, at the input where the code leaves it: the dialog has not challenged yet, so
  \<open>self.auth\<close> is \<open>None\<close>, and the message carries an \<open>Authorization\<close> block.
  \<open>validate_auth\<close> raises \<open>AttributeError\<close>; it returns neither \<open>False\<close> nor, for a
  \<open>CANCEL\<close>, \<open>True\<close>.
\<close>

theorem validate_auth_without_challenge:
  "d_auth inbound_dialog = None
   \<and> validate_auth v inbound_dialog authorized_register password = Inl AttributeError
   \<and> validate_auth v inbound_dialog (authorized_register\<lparr>msg_method := ''CANCEL''\<rparr>) password
        = Inl AttributeError"
  by (simp add: validate_auth_def inbound_dialog_def register_dialog_def authorized_register_def
      incoming_request_def)


section \<open>Serialisation: the length of the body\<close>

lemma set_format_step:
  "set (format_step c acc (k, v)) = set acc \<union> set (header_lines (written_name c k) v)"
  by (cases "k = ''Via''") (simp_all add: format_step_def Un_commute)

lemma set_format_fold:
  "set (foldl (format_step c) acc xs)
     = set acc \<union> (\<Union>(k, v) \<in> set xs. set (header_lines (written_name c k) v))"
proof (induction xs arbitrary: acc)
  case Nil
  show ?case by simp
next
  case (Cons a xs)
  obtain k v where a: "a = (k, v)" by (cases a)
  show ?case
    by (simp add: Cons.IH a set_format_step Un_assoc)
qed

lemma set_format_lines:
  "set (format_lines c h) = (\<Union>(k, v) \<in> set h. set (header_lines (written_name c k) v))"
  by (simp add: format_lines_def set_format_fold)

lemma line_of_item:
  assumes "(k, HStr s) \<in> set h"
  shows "written_name c k @ '': '' @ s \<in> set (format_lines c h)"
  using assms by (force simp: set_format_lines header_lines_def)

lemma not_ci_cl: "\<not> ci_eq ''Max-Forwards'' ''Content-Length''" "\<not> ci_eq ''Call-ID'' ''Content-Length''"
  by code_simp+

lemma cseq_keeps:
  assumes "cseq m = Inr (c, m1)"
  shows "m1 = m\<lparr>m_cseq := Some c\<rparr>"
proof (cases "m_cseq m")
  case (Some v)
  with assms show ?thesis by (simp add: cseq_def)
next
  case None
  with assms show ?thesis
    by (cases "cseq_parts m"; cases "py_int (hd (projr (cseq_parts m)))") (auto simp: cseq_def)
qed

lemma method_keeps:
  assumes "method_of m = Inr (p, m1)"
  shows "m1 = m\<lparr>m_method := Some p\<rparr>"
proof (cases "m_method m")
  case (Some v)
  with assms show ?thesis by (simp add: method_of_def)
next
  case None
  with assms show ?thesis
    by (cases "cseq_parts m"; cases "tl (projr (cseq_parts m))") (auto simp: method_of_def)
qed

lemma set_cseq_header_keeps:
  assumes "set_cseq_header m = Inr m'"
  shows "m_raw_payload m' = m_raw_payload m \<and> m_compact m' = m_compact m
         \<and> m_first_line m' = m_first_line m"
proof (cases "m_cseq m \<noteq> None \<or> m_method m \<noteq> None")
  case False
  with assms show ?thesis by (simp add: set_cseq_header_def)
next
  case True
  with assms obtain c m1 where c: "cseq m = Inr (c, m1)"
    by (cases "cseq m") (auto simp: set_cseq_header_def)
  with assms True obtain p m2 where p: "method_of m1 = Inr (p, m2)"
    by (cases "method_of m1") (auto simp: set_cseq_header_def)
  from assms True c p
  have "m' = m2\<lparr>m_headers := setitem (m_headers m2) ''CSeq'' (HStr (str_int c @ '' '' @ p))\<rparr>"
    by (auto simp: set_cseq_header_def)
  with cseq_keeps [OF c] method_keeps [OF p] show ?thesis by simp
qed

lemma write_details_keeps:
  "m_raw_payload (write_details env m) = m_raw_payload m
   \<and> m_compact (write_details env m) = m_compact m
   \<and> m_first_line (write_details env m) = m_first_line m"
  by (auto simp: write_details_def Let_def split: option.splits)

lemma write_defaults_content_length:
  assumes "write_defaults env m = Inr m'"
  shows "\<exists>raw. m_raw_payload m = Some raw \<and> m_raw_payload m' = Some raw \<and> m_compact m' = m_compact m
           \<and> m_first_line m' = m_first_line m
           \<and> filter (\<lambda>(k, v). ci_eq k ''Content-Length'') (m_headers m')
               = [(''Content-Length'', HStr (str_nat (length raw)))]"
proof (cases "m_raw_payload m")
  case None
  with assms show ?thesis by (simp add: write_defaults_def)
next
  case (Some raw)
  with assms have "m' = m\<lparr>m_headers :=
      (let h5 = setitem (m_headers m) ''Content-Length'' (HStr (str_int (int (length raw))));
           h6 = (if \<not> contains h5 ''Max-Forwards'' then setitem h5 ''Max-Forwards'' (HStr ''70'') else h5)
       in (if \<not> contains h6 ''Call-ID'' then setitem h6 ''Call-ID'' (HStr (uuid4 env)) else h6))\<rparr>"
    by (simp add: write_defaults_def Let_def)
  then show ?thesis
    using Some
    by (simp add: Let_def filter_setitem_other not_ci_cl filter_setitem_same str_int_nat)
qed

lemma make_headers_content_length:
  assumes "make_headers env m = Inr m'"
  shows "\<exists>raw. m_raw_payload m = Some raw \<and> m_raw_payload m' = Some raw \<and> m_compact m' = m_compact m
           \<and> m_first_line m' = m_first_line m
           \<and> filter (\<lambda>(k, v). ci_eq k ''Content-Length'') (m_headers m')
               = [(''Content-Length'', HStr (str_nat (length raw)))]"
proof -
  obtain m4 where s: "set_cseq_header (write_details env m) = Inr m4" and d: "write_defaults env m4 = Inr m'"
    using assms by (auto simp: make_headers_def split: sum.splits)
  obtain raw where r: "m_raw_payload m4 = Some raw \<and> m_raw_payload m' = Some raw \<and> m_compact m' = m_compact m4
           \<and> m_first_line m' = m_first_line m4
           \<and> filter (\<lambda>(k, v). ci_eq k ''Content-Length'') (m_headers m')
               = [(''Content-Length'', HStr (str_nat (length raw)))]"
    using write_defaults_content_length [OF d] by blast
  have "m_raw_payload m4 = m_raw_payload m" "m_compact m4 = m_compact m" "m_first_line m4 = m_first_line m"
    using set_cseq_header_keeps [OF s] write_details_keeps [of env m] by simp_all
  with r show ?thesis by simp
qed


lemma str_nat_0: "str_nat 0 = ''0''"
  by code_simp

lemma set_raw_payload_raw:
  "\<exists>raw. m_raw_payload (set_raw_payload env m) = Some raw
     \<and> raw = (case (if truthy (m_payload m) then m_payload m else None) of
                 Some p \<Rightarrow> str_encode env p
               | None \<Rightarrow> (case (if truthy (m_raw_payload m) then m_raw_payload m else None) of
                            Some r \<Rightarrow> r | None \<Rightarrow> []))"
  by (cases "m_payload m"; cases "m_raw_payload m") (auto simp: set_raw_payload_def truthy_def)

lemma set_raw_payload_keeps:
  "m_compact (set_raw_payload env m) = m_compact m
   \<and> m_first_line (set_raw_payload env m) = m_first_line m
   \<and> m_cseq (set_raw_payload env m) = m_cseq m
   \<and> m_method (set_raw_payload env m) = m_method m"
  by (cases "m_payload m"; cases "m_raw_payload m") (auto simp: set_raw_payload_def truthy_def)

lemma in_filter_singleton:
  "filter P xs = [x] \<Longrightarrow> x \<in> set xs"
  by (metis filter_is_subset list.set_intros(1) subsetD)

text \<open>
  C9. When \<open>encode\<close> returns, the header map holds exactly one \<open>Content-Length\<close>, whose
  value is the decimal length of the body that follows the header block, and the line of
  that header is among the lines written (under its compact alias \<open>l\<close> in a
  \<open>CompactHeaderResponse\<close>). The body is the encoded text payload when there is one, else
  the raw payload when there is one, else it is empty and the line reads
  \<open>Content-Length: 0\<close>.
\<close>

theorem content_length_is_body_length:
  assumes "encode_parts env m = Inr ((lines, body), m')"
  shows "filter (\<lambda>(k, v). ci_eq k ''Content-Length'') (m_headers m')
           = [(''Content-Length'', HStr (str_nat (length body)))]
     \<and> lines = format_lines (m_compact m) (m_headers m')
     \<and> written_name (m_compact m) ''Content-Length'' @ '': '' @ str_nat (length body) \<in> set lines
     \<and> encode env m =
          Inr ((case m_first_line m of None \<Rightarrow> [] | Some l \<Rightarrow> str_encode env l @ EOL)
                 @ str_encode env (join EOL (lines @ [EOL])) @ body, m')
     \<and> body = (case (if truthy (m_payload m) then m_payload m else None) of
                 Some p \<Rightarrow> str_encode env p
               | None \<Rightarrow> (case (if truthy (m_raw_payload m) then m_raw_payload m else None) of
                            Some r \<Rightarrow> r | None \<Rightarrow> []))
     \<and> (if truthy (m_payload m) \<or> truthy (m_raw_payload m) then True
         else body = [] \<and> written_name (m_compact m) ''Content-Length'' @ '': 0'' \<in> set lines)"
proof -
  let ?m0 = "set_raw_payload env m"
  from assms have mh: "make_headers env ?m0 = Inr m'"
    and l: "lines = format_lines (m_compact m') (m_headers m')"
    and b: "body = (case m_raw_payload m' of None \<Rightarrow> [] | Some b \<Rightarrow> b)"
    by (auto simp: encode_parts_def split: sum.splits)
  obtain raw where r: "m_raw_payload ?m0 = Some raw" "m_raw_payload m' = Some raw"
    "m_compact m' = m_compact ?m0" "m_first_line m' = m_first_line ?m0"
    "filter (\<lambda>(k, v). ci_eq k ''Content-Length'') (m_headers m')
       = [(''Content-Length'', HStr (str_nat (length raw)))]"
    using make_headers_content_length [OF mh] by blast
  note k = set_raw_payload_keeps [of env m]
  have br: "body = raw" using b r by simp
  have c1: "filter (\<lambda>(k, v). ci_eq k ''Content-Length'') (m_headers m')
           = [(''Content-Length'', HStr (str_nat (length body)))]"
    using r br by simp
  have c2: "lines = format_lines (m_compact m) (m_headers m')"
    using l r k by simp
  have i: "(''Content-Length'', HStr (str_nat (length body))) \<in> set (m_headers m')"
    using in_filter_singleton [OF c1] .
  have c3: "written_name (m_compact m) ''Content-Length'' @ '': '' @ str_nat (length body) \<in> set lines"
    unfolding c2 by (rule line_of_item [OF i])
  have c4: "encode env m =
          Inr ((case m_first_line m of None \<Rightarrow> [] | Some l \<Rightarrow> str_encode env l @ EOL)
                 @ str_encode env (join EOL (lines @ [EOL])) @ body, m')"
    using assms r k by (simp add: encode_def)
  have c5: "body = (case (if truthy (m_payload m) then m_payload m else None) of
                 Some p \<Rightarrow> str_encode env p
               | None \<Rightarrow> (case (if truthy (m_raw_payload m) then m_raw_payload m else None) of
                            Some r \<Rightarrow> r | None \<Rightarrow> []))"
    using set_raw_payload_raw [of env m] r br by auto
  have c6: "if truthy (m_payload m) \<or> truthy (m_raw_payload m) then True
         else body = [] \<and> written_name (m_compact m) ''Content-Length'' @ '': 0'' \<in> set lines"
  proof (cases "truthy (m_payload m) \<or> truthy (m_raw_payload m)")
    case True
    then show ?thesis by simp
  next
    case False
    with c5 have e: "body = []" by simp
    from c3 e have "written_name (m_compact m) ''Content-Length'' @ '': 0'' \<in> set lines"
      by (simp add: str_nat_0)
    with e False show ?thesis by simp
  qed
  from c1 c2 c3 c4 c5 c6 show ?thesis by blast
qed


text \<open>\<open>encode\<close> returns for every message whose \<open>_cseq\<close> and \<open>_method\<close> are set, as those of a request are.\<close>

lemma encode_parts_returns:
  assumes "m_cseq m = Some c" and "m_method m = Some p"
  shows "\<exists>r. encode_parts env m = Inr r"
proof -
  let ?m0 = "write_details env (set_raw_payload env m)"
  have a: "m_cseq ?m0 = Some c" "m_method ?m0 = Some p"
    using assms set_raw_payload_keeps [of env m]
    by (auto simp: write_details_def Let_def split: option.splits)
  then obtain m4 where s: "set_cseq_header ?m0 = Inr m4"
    by (simp add: set_cseq_header_def cseq_def method_of_def)
  obtain raw where "m_raw_payload (set_raw_payload env m) = Some raw"
    using set_raw_payload_raw [of env m] by blast
  then have "m_raw_payload m4 = Some raw"
    using set_cseq_header_keeps [OF s] write_details_keeps [of env "set_raw_payload env m"] by simp
  then obtain m5 where "write_defaults env m4 = Inr m5"
    by (simp add: write_defaults_def Let_def)
  with s show ?thesis
    by (simp add: encode_parts_def make_headers_def)
qed

text \<open>An INVITE with the payload \<open>v=0\<close> and a 200 without payload.\<close>

theorem content_length_is_body_length_witness:
  "encode_parts example_env invite_request = Inr ((invite_lines, ''v=0''), invite_encoded)
   \<and> get (m_headers invite_encoded) ''Content-Length'' = Some (HStr ''3'')
   \<and> ''Content-Length: 3'' \<in> set invite_lines
   \<and> encode_parts example_env ok_response = Inr ((ok_lines, []), ok_encoded)
   \<and> ''Content-Length: 0'' \<in> set ok_lines"
proof -
  note ha = encode_invite_request
  note hb = encode_ok_response
  have f: "m_compact invite_request = False" "m_compact ok_response = False"
    by (simp_all add: invite_request_def ok_response_def)
  have t: "\<not> (truthy (m_payload ok_response) \<or> truthy (m_raw_payload ok_response))"
    by (simp add: ok_response_def truthy_def)
  have n: "str_nat (length ''v=0'') = ''3''"
    by code_simp
  have g: "get (m_headers invite_encoded) ''Content-Length'' = Some (HStr ''3'')"
    by code_simp
  note a = content_length_is_body_length [OF ha]
  note b = content_length_is_body_length [OF hb]
  from a have "written_name (m_compact invite_request) ''Content-Length'' @ '': ''
                 @ str_nat (length ''v=0'') \<in> set invite_lines"
    by blast
  then have c3: "''Content-Length: 3'' \<in> set invite_lines"
    by (simp only: f n written_name_def if_False append_Cons append_Nil)
  from b have "if truthy (m_payload ok_response) \<or> truthy (m_raw_payload ok_response) then True
         else [] = ([] :: string)
            \<and> written_name (m_compact ok_response) ''Content-Length'' @ '': 0'' \<in> set ok_lines"
    by blast
  with t have "written_name (m_compact ok_response) ''Content-Length'' @ '': 0'' \<in> set ok_lines"
    by simp
  then have c5: "''Content-Length: 0'' \<in> set ok_lines"
    by (simp only: f written_name_def if_False append_Cons append_Nil)
  from ha g c3 hb c5 show ?thesis by blast
qed

section \<open>Construction without a Via header\<close>

lemma contact_details_absent:
  assumes "m_contact_details m = None" and "\<not> contains (m_headers m) ''Contact''"
  shows "contact_details env m = Inr (None, m\<lparr>m_contact_details := Some None\<rparr>)"
  using assms by (simp add: contact_details_def contains_get)

lemma contact_details_some:
  assumes "contact_details env m = Inr (Some c, m1)"
  shows "m_contact_details m \<noteq> None \<or> contains (m_headers m) ''Contact''"
  using assms
  by (cases "m_contact_details m"; cases "get (m_headers m) ''Contact''")
    (auto simp: contact_details_def contains_get)

lemma message_init_needs_contact:
  assumes "message_init env headers payload_arg from_arg to_arg contact_arg = Inr m"
    and "\<not> contains (copy_headers headers) ''Via''"
  shows "contact_arg \<noteq> None \<or> contains (copy_headers headers) ''Contact''"
proof (rule ccontr)
  assume "\<not> (contact_arg \<noteq> None \<or> contains (copy_headers headers) ''Contact'')"
  then have c: "contact_arg = None" and h: "\<not> contains (copy_headers headers) ''Contact''"
    by simp_all
  let ?m = "\<lparr>m_headers = copy_headers headers, m_from_details = from_arg, m_to_details = to_arg,
                  m_contact_details = None,
                  m_cseq = None, m_method = None, m_payload = payload_arg, m_raw_payload = None,
                  m_first_line = None, m_status_code = None, m_status_message = None,
                  m_compact = False\<rparr>"
  have "contact_details env ?m = Inr (None, ?m\<lparr>m_contact_details := Some None\<rparr>)"
    using h by (intro contact_details_absent) simp_all
  with assms c show False
    by (simp add: message_init_def Let_def split: if_splits)
qed

lemma message_init_without_contact:
  assumes "\<not> contains (copy_headers headers) ''Via''" and "\<not> contains (copy_headers headers) ''Contact''"
  shows "message_init env headers payload_arg from_arg to_arg None =
     (if from_arg = None \<and> \<not> contains (copy_headers headers) ''From''
        then Inl (ValueError ''From header or from_details is required'')
      else if to_arg = None \<and> \<not> contains (copy_headers headers) ''To''
        then Inl (ValueError ''To header or to_details is required'')
      else Inl TypeError)"
proof -
  let ?m = "\<lparr>m_headers = copy_headers headers, m_from_details = from_arg, m_to_details = to_arg,
                  m_contact_details = None,
                  m_cseq = None, m_method = None, m_payload = payload_arg, m_raw_payload = None,
                  m_first_line = None, m_status_code = None, m_status_message = None,
                  m_compact = False\<rparr>"
  have "contact_details env ?m = Inr (None, ?m\<lparr>m_contact_details := Some None\<rparr>)"
    using assms(2) by (intro contact_details_absent) simp_all
  with assms(1) show ?thesis
    by (simp add: message_init_def Let_def)
qed

lemma request_init_fails:
  "message_init env headers payload_arg from_arg to_arg contact_arg = Inl e \<Longrightarrow>
   request_init env method_arg cseq_arg from_arg to_arg contact_arg headers payload_arg first_line = Inl e"
  by (simp add: request_init_def)

lemma response_init_fails:
  "message_init env headers payload_arg from_arg to_arg contact_arg = Inl e \<Longrightarrow>
   response_init env compact status_code status_message headers from_arg to_arg contact_arg
     payload_arg cseq_arg method_arg first_line = Inl e"
  by (simp add: response_init_def)

lemma request_init_returns:
  "request_init env method_arg cseq_arg from_arg to_arg contact_arg headers payload_arg first_line = Inr m \<Longrightarrow>
   \<exists>m0. message_init env headers payload_arg from_arg to_arg contact_arg = Inr m0"
  by (cases "message_init env headers payload_arg from_arg to_arg contact_arg")
    (simp_all add: request_init_def)

lemma response_init_returns:
  "response_init env compact status_code status_message headers from_arg to_arg contact_arg
     payload_arg cseq_arg method_arg first_line = Inr m \<Longrightarrow>
   \<exists>m0. message_init env headers payload_arg from_arg to_arg contact_arg = Inr m0"
  by (cases "message_init env headers payload_arg from_arg to_arg contact_arg")
    (simp_all add: response_init_def)

lemma from_raw_headers_returns:
  assumes "from_raw_headers env raw = Inr m"
  shows "\<exists>h m0. parsed_headers env raw = Inr h \<and> message_init env (Some h) None None None None = Inr m0"
proof -
  from assms obtain h where h: "parsed_headers env raw = Inr h"
    by (cases "parsed_headers env raw") (simp_all add: from_raw_headers_def)
  show ?thesis
  proof (cases "match_response (start_line env raw)")
    case (Some a)
    obtain code message where a: "a = (code, message)" by (cases a)
    from assms h Some a obtain sc where sc: "py_int code = Some sc"
      by (cases "py_int code") (simp_all add: from_raw_headers_def)
    from assms h Some a sc
    have "response_init env False sc (Some message) (Some h) None None None None None None
            (Some (start_line env raw)) = Inr m"
      by (simp add: from_raw_headers_def)
    from response_init_returns [OF this] h show ?thesis by blast
  next
    case None
    from assms h None obtain meth c i where
      "request_init env meth i None None None (Some h) None (Some (start_line env raw)) = Inr m"
      by (auto simp: from_raw_headers_def split: option.splits hval.splits list.splits)
    from request_init_returns [OF this] h show ?thesis by blast
  qed
qed


lemma digit_not_space: "is_digit c \<Longrightarrow> \<not> is_space c"
  by (auto simp: is_digit_def is_space_def)

lemma digit_not_sign: "is_digit c \<Longrightarrow> c \<noteq> CHR ''-'' \<and> c \<noteq> CHR ''+''"
  by (auto simp: is_digit_def)

lemma py_int_three_digits:
  assumes "is_digit a" and "is_digit b" and "is_digit c"
  shows "\<exists>n. py_int [a, b, c] = Some n"
proof -
  have s: "strip [a, b, c] = [a, b, c]"
    using assms by (simp add: strip_def digit_not_space)
  show ?thesis
    using assms digit_not_sign [OF assms(1)]
    by (simp add: py_int_def s int_unsigned_def)
qed

lemma match_response_code:
  assumes "match_response line = Some (code, message)"
  shows "\<exists>n. py_int code = Some n"
proof -
  from assms have l: "13 \<le> length line" and d: "is_digit (line ! 8)" "is_digit (line ! 9)" "is_digit (line ! 10)"
    and c: "code = take 3 (drop 8 line)"
    by (auto simp: match_response_def split: if_splits)
  from l have "take 3 (drop 8 line) = [line ! 8, line ! 9, line ! 10]"
    by (auto simp: list_eq_iff_nth_eq nth_Cons' less_Suc_eq numeral_3_eq_3)
  with c d py_int_three_digits show ?thesis by simp
qed

lemma from_raw_headers_without_contact:
  assumes "parsed_headers env raw = Inr h"
    and "\<not> contains h ''Via''" and "\<not> contains h ''Contact''"
    and "contains h ''From''" and "contains h ''To''"
    and "match_response (start_line env raw) = Some (code, message)"
  shows "from_raw_headers env raw = Inl TypeError"
proof -
  obtain n where n: "py_int code = Some n"
    using match_response_code [OF assms(6)] by blast
  have "message_init env (Some h) None None None None = Inl TypeError"
    using message_init_without_contact [of "Some h" env None None None] assms(2-5)
    by (simp add: copy_headers_def)
  from response_init_fails [OF this] assms(1,6) n show ?thesis
    by (simp add: from_raw_headers_def)
qed

lemma from_raw_headers_fails_without_contact:
  assumes "parsed_headers env raw = Inr h"
    and "\<not> contains h ''Via''" and "\<not> contains h ''Contact''"
  shows "isl (from_raw_headers env raw)"
proof (cases "from_raw_headers env raw")
  case (Inl e)
  then show ?thesis by simp
next
  case (Inr m)
  from from_raw_headers_returns [OF Inr] assms(1)
  obtain m0 where "message_init env (Some h) None None None None = Inr m0" by auto
  from message_init_needs_contact [OF this] assms(2,3) show ?thesis
    by (simp add: copy_headers_def)
qed

text \<open>
  C10. A message built without a \<open>Via\<close> header (by \<open>Message\<close>, \<open>Request\<close> or
  \<open>Response\<close>, or by \<open>from_raw_headers\<close> out of the parsed header map) exists only when
  contact details were at hand, as the argument or as a \<open>Contact\<close> header. With neither,
  the construction fails: with \<open>TypeError\<close> (the subscript of \<open>None\<close>) once \<open>From\<close> and
  \<open>To\<close> are provided, and before that with the \<open>ValueError\<close> of the missing \<open>From\<close> or
  \<open>To\<close>; never with the \<open>ValueError\<close> \<open>Not a SIP message\<close> of the codec. A response
  on the wire with \<open>From\<close> and \<open>To\<close> but neither \<open>Via\<close> nor \<open>Contact\<close> makes
  \<open>from_raw_headers\<close> raise that \<open>TypeError\<close>.
\<close>

theorem via_needs_contact_details:
  "(\<not> contains (copy_headers headers) ''Via''
      \<and> (message_init env headers payload_arg from_arg to_arg contact_arg = Inr m
         \<or> request_init env method_arg cseq_arg from_arg to_arg contact_arg headers payload_arg first_line = Inr m
         \<or> response_init env compact status_code status_message headers from_arg to_arg contact_arg
              payload_arg cseq_opt method_opt first_line = Inr m)
      \<longrightarrow> contact_arg \<noteq> None \<or> contains (copy_headers headers) ''Contact'')
   \<and> (from_raw_headers env raw = Inr m \<and> parsed_headers env raw = Inr h \<and> \<not> contains h ''Via''
      \<longrightarrow> contains h ''Contact'')
   \<and> (\<not> contains (copy_headers headers) ''Via'' \<and> \<not> contains (copy_headers headers) ''Contact''
      \<longrightarrow> message_init env headers payload_arg from_arg to_arg None =
            (if from_arg = None \<and> \<not> contains (copy_headers headers) ''From''
               then Inl (ValueError ''From header or from_details is required'')
             else if to_arg = None \<and> \<not> contains (copy_headers headers) ''To''
               then Inl (ValueError ''To header or to_details is required'')
             else Inl TypeError)
          \<and> message_init env headers payload_arg from_arg to_arg None \<noteq> Inl (ValueError ''Not a SIP message'')
          \<and> request_init env method_arg cseq_arg from_arg to_arg None headers payload_arg first_line
               = message_init env headers payload_arg from_arg to_arg None
          \<and> response_init env compact status_code status_message headers from_arg to_arg None
               payload_arg cseq_opt method_opt first_line
               = message_init env headers payload_arg from_arg to_arg None)
   \<and> (parsed_headers env raw = Inr h \<and> \<not> contains h ''Via'' \<and> \<not> contains h ''Contact''
      \<longrightarrow> isl (from_raw_headers env raw))
   \<and> (parsed_headers env raw = Inr h \<and> \<not> contains h ''Via'' \<and> \<not> contains h ''Contact''
        \<and> contains h ''From'' \<and> contains h ''To''
        \<and> match_response (start_line env raw) = Some (code, message)
      \<longrightarrow> from_raw_headers env raw = Inl TypeError)"
proof (intro conjI impI)
  assume a: "\<not> contains (copy_headers headers) ''Via''
      \<and> (message_init env headers payload_arg from_arg to_arg contact_arg = Inr m
         \<or> request_init env method_arg cseq_arg from_arg to_arg contact_arg headers payload_arg first_line = Inr m
         \<or> response_init env compact status_code status_message headers from_arg to_arg contact_arg
              payload_arg cseq_opt method_opt first_line = Inr m)"
  then consider
      (msg) "message_init env headers payload_arg from_arg to_arg contact_arg = Inr m"
    | (req) "request_init env method_arg cseq_arg from_arg to_arg contact_arg headers payload_arg first_line = Inr m"
    | (resp) "response_init env compact status_code status_message headers from_arg to_arg contact_arg
              payload_arg cseq_opt method_opt first_line = Inr m"
    by blast
  then have "\<exists>m0. message_init env headers payload_arg from_arg to_arg contact_arg = Inr m0"
  proof cases
    case msg
    then show ?thesis by blast
  next
    case req
    from request_init_returns [OF req] show ?thesis .
  next
    case resp
    from response_init_returns [OF resp] show ?thesis .
  qed
  then obtain m0 where "message_init env headers payload_arg from_arg to_arg contact_arg = Inr m0"
    by blast
  from message_init_needs_contact [OF this] a
  show "contact_arg \<noteq> None \<or> contains (copy_headers headers) ''Contact''" by simp
next
  assume a: "from_raw_headers env raw = Inr m \<and> parsed_headers env raw = Inr h \<and> \<not> contains h ''Via''"
  show "contains h ''Contact''"
  proof (rule ccontr)
    assume "\<not> contains h ''Contact''"
    with from_raw_headers_fails_without_contact [of env raw h] a show False by simp
  qed
next
  assume a: "\<not> contains (copy_headers headers) ''Via'' \<and> \<not> contains (copy_headers headers) ''Contact''"
  then have v: "\<not> contains (copy_headers headers) ''Via''" and c: "\<not> contains (copy_headers headers) ''Contact''"
    by simp_all
  note e = message_init_without_contact [OF v c, of env payload_arg from_arg to_arg]
  show "message_init env headers payload_arg from_arg to_arg None =
            (if from_arg = None \<and> \<not> contains (copy_headers headers) ''From''
               then Inl (ValueError ''From header or from_details is required'')
             else if to_arg = None \<and> \<not> contains (copy_headers headers) ''To''
               then Inl (ValueError ''To header or to_details is required'')
             else Inl TypeError)"
    by (rule e)
  show "message_init env headers payload_arg from_arg to_arg None \<noteq> Inl (ValueError ''Not a SIP message'')"
    by (simp add: e)
  have "\<exists>x. message_init env headers payload_arg from_arg to_arg None = Inl x"
    by (simp add: e)
  then obtain x where x: "message_init env headers payload_arg from_arg to_arg None = Inl x"
    by blast
  show "request_init env method_arg cseq_arg from_arg to_arg None headers payload_arg first_line
               = message_init env headers payload_arg from_arg to_arg None"
    using request_init_fails [OF x] x by simp
  show "response_init env compact status_code status_message headers from_arg to_arg None
               payload_arg cseq_opt method_opt first_line
               = message_init env headers payload_arg from_arg to_arg None"
    using response_init_fails [OF x] x by simp
next
  assume "parsed_headers env raw = Inr h \<and> \<not> contains h ''Via'' \<and> \<not> contains h ''Contact''"
  then show "isl (from_raw_headers env raw)"
    using from_raw_headers_fails_without_contact by blast
next
  assume "parsed_headers env raw = Inr h \<and> \<not> contains h ''Via'' \<and> \<not> contains h ''Contact''
        \<and> contains h ''From'' \<and> contains h ''To''
        \<and> match_response (start_line env raw) = Some (code, message)"
  then show "from_raw_headers env raw = Inl TypeError"
    using from_raw_headers_without_contact by blast
qed

text \<open>
  A message and a request built from contacts for \<open>From\<close> and \<open>To\<close> only, a response
  parsed from the wire without \<open>Via\<close> and \<open>Contact\<close>, and a message with a \<open>Contact\<close>
  header, whose \<open>Via\<close> is made from it.
\<close>

theorem via_needs_contact_details_witness:
  "message_init example_env None None (Some ''<sip:alice@example.com>;tag=a1'')
      (Some ''<sip:bob@example.com>'') None = Inl TypeError
   \<and> request_init example_env ''INVITE'' 1 (Some ''<sip:alice@example.com>;tag=a1'')
      (Some ''<sip:bob@example.com>'') None None None None = Inl TypeError
   \<and> from_raw_headers example_env bare_response_headers = Inl TypeError
   \<and> contains [(''Contact'', HStr ''<sip:alice@10.0.0.1>'')] ''Contact''
   \<and> get (m_headers (projr (message_init example_env (Some [(''Contact'', HStr ''<sip:alice@10.0.0.1>'')])
            None (Some ''<sip:alice@example.com>;tag=a1'') (Some ''<sip:bob@example.com>'') None))) ''Via''
       = Some (HStr ''SIP/2.0/%(protocol)s 10.0.0.1:5060;branch=z9hG4bK7f3a'')"
proof -
  let ?f = "Some ''<sip:alice@example.com>;tag=a1''"
  let ?t = "Some ''<sip:bob@example.com>''"
  let ?h = "[(''From'', HStr ''<sip:alice@example.com>;tag=a1''),
             (''To'', HStr ''<sip:bob@example.com>;tag=b2''), (''CSeq'', HStr ''1 INVITE'')]"
  let ?c = "Some [(''Contact'', HStr ''<sip:alice@10.0.0.1>'')]"
  let ?m = "projr (message_init example_env ?c None ?f ?t None)"
  have h1: "\<not> contains (copy_headers None) ''Via'' \<and> \<not> contains (copy_headers None) ''Contact''"
    by code_simp
  have h2: "parsed_headers example_env bare_response_headers = Inr ?h \<and> \<not> contains ?h ''Via''
        \<and> \<not> contains ?h ''Contact'' \<and> contains ?h ''From'' \<and> contains ?h ''To''
        \<and> match_response (start_line example_env bare_response_headers) = Some (''200'', ''OK'')"
    by code_simp
  have h3: "\<not> contains (copy_headers ?c) ''Via'' \<and> message_init example_env ?c None ?f ?t None = Inr ?m"
    by code_simp
  have v: "get (m_headers ?m) ''Via'' = Some (HStr ''SIP/2.0/%(protocol)s 10.0.0.1:5060;branch=z9hG4bK7f3a'')"
    by code_simp
  note a = via_needs_contact_details [where headers = None and env = example_env
      and payload_arg = None and from_arg = ?f and to_arg = ?t and contact_arg = None
      and method_arg = "''INVITE''" and cseq_arg = 1 and first_line = None
      and raw = bare_response_headers and h = ?h and code = "''200''" and message = "''OK''"]
  note b = via_needs_contact_details [where headers = ?c and env = example_env
      and payload_arg = None and from_arg = ?f and to_arg = ?t and contact_arg = None and m = ?m]
  from a h1 have c1: "message_init example_env None None ?f ?t None = Inl TypeError"
    and c2: "request_init example_env ''INVITE'' 1 ?f ?t None None None None
               = message_init example_env None None ?f ?t None"
    by simp_all
  from a h2 have c3: "from_raw_headers example_env bare_response_headers = Inl TypeError"
    by blast
  from b h3 have c4: "contains (copy_headers ?c) ''Contact''"
    by blast
  from c1 c2 c3 c4 v show ?thesis by (simp add: copy_headers_def)
qed

section \<open>Serialisation: the order of the headers\<close>

lemma format_step_via:
  "is_via kv \<Longrightarrow> format_step c acc kv = item_lines c kv @ acc"
  by (cases kv) (simp add: format_step_def is_via_def item_lines_def)

lemma format_step_other:
  "\<not> is_via kv \<Longrightarrow> format_step c acc kv = acc @ item_lines c kv"
  by (cases kv) (simp add: format_step_def is_via_def item_lines_def)

lemma format_fold:
  "foldl (format_step c) acc xs =
     concat (map (item_lines c) (rev (filter is_via xs))) @ acc
       @ concat (map (item_lines c) (filter (\<lambda>kv. \<not> is_via kv) xs))"
proof (induction xs arbitrary: acc)
  case Nil
  show ?case by simp
next
  case (Cons a xs)
  show ?case
  proof (cases "is_via a")
    case True
    then show ?thesis
      by (simp add: Cons.IH format_step_via)
  next
    case False
    then show ?thesis
      by (simp add: Cons.IH format_step_other)
  qed
qed

lemma one_via:
  assumes "distinct (map fst h)"
  shows "length (filter is_via h) \<le> 1"
  using assms
proof (induction h)
  case Nil
  show ?case by simp
next
  case (Cons a h)
  show ?case
  proof (cases "is_via a")
    case True
    have "filter is_via h = []"
    proof (rule ccontr)
      assume "filter is_via h \<noteq> []"
      then obtain b where b: "b \<in> set h" "is_via b"
        by (metis filter_False)
      then have "fst b = fst a" using True by (simp add: is_via_def)
      with b(1) have "fst a \<in> fst ` set h" by (metis imageI)
      with Cons.prems show False by simp
    qed
    with True show ?thesis by simp
  next
    case False
    with Cons show ?thesis by simp
  qed
qed

lemma short_list_sorted:
  "length xs \<le> 1 \<Longrightarrow> sort_key f xs = xs \<and> rev xs = xs"
  by (cases xs) (auto simp: length_Suc_conv)

text \<open>
  C3 (as amended). For a header map that has no key twice, the lines of the header block
  are the lines of the header stored under the exact name \<open>Via\<close> (at most one item; the
  values of a list in the order of the list), followed by the lines of all other headers
  in ascending order of their stored names. The order is that of the strings, by code
  point; it is not case-insensitive, and in a \<open>CompactHeaderResponse\<close> it is the order of
  the stored names, not of the aliases written.
\<close>

theorem via_first_then_sorted:
  assumes "distinct (map fst h)"
  shows "format_lines c h =
           concat (map (item_lines c) (filter is_via h))
             @ concat (map (item_lines c) (sort_key fst (filter (\<lambda>kv. \<not> is_via kv) h)))
     \<and> sorted (map fst (sort_key fst (filter (\<lambda>kv. \<not> is_via kv) h)))
     \<and> length (filter is_via h) \<le> 1
     \<and> (case get h ''Via'' of
          Some (HList l) \<Rightarrow>
            (if (''Via'', HList l) \<in> set h
             then concat (map (item_lines c) (filter is_via h))
                    = map (\<lambda>i. written_name c ''Via'' @ '': '' @ i) l
             else True)
        | _ \<Rightarrow> True)"
proof -
  note one = one_via [OF assms]
  have f: "filter is_via (sort_key fst h) = filter is_via h"
    using short_list_sorted [OF one, of fst] by (simp add: filter_sort)
  have r: "rev (filter is_via h) = filter is_via h"
    using short_list_sorted [OF one, of fst] by simp
  have c1: "format_lines c h =
           concat (map (item_lines c) (filter is_via h))
             @ concat (map (item_lines c) (sort_key fst (filter (\<lambda>kv. \<not> is_via kv) h)))"
    by (simp only: format_lines_def format_fold f r filter_sort [symmetric] append_Nil)
  have c2: "sorted (map fst (sort_key fst (filter (\<lambda>kv. \<not> is_via kv) h)))"
    by (rule sorted_sort_key)
  have c4: "(case get h ''Via'' of
          Some (HList l) \<Rightarrow>
            (if (''Via'', HList l) \<in> set h
             then concat (map (item_lines c) (filter is_via h))
                    = map (\<lambda>i. written_name c ''Via'' @ '': '' @ i) l
             else True)
        | _ \<Rightarrow> True)"
  proof (cases "get h ''Via''")
    case None
    then show ?thesis by simp
  next
    case (Some v)
    show ?thesis
    proof (cases v)
      case (HStr s)
      with Some show ?thesis by simp
    next
      case (HList l)
      show ?thesis
      proof (cases "(''Via'', HList l) \<in> set h")
        case False
        with Some HList show ?thesis by simp
      next
        case True
        then have "(''Via'', HList l) \<in> set (filter is_via h)"
          by (simp add: is_via_def)
        with one have "filter is_via h = [(''Via'', HList l)]"
          by (cases "filter is_via h") (auto simp: length_Suc_conv)
        with Some HList True show ?thesis
          by (simp add: item_lines_def header_lines_def)
      qed
    qed
  qed
  from c1 c2 one c4 show ?thesis by blast
qed

text \<open>
  The header map of the encoded INVITE, and a map with two \<open>Via\<close> values written with
  compact names: \<open>f\<close> and \<open>t\<close> follow \<open>CSeq\<close> in the order of \<open>From\<close> and \<open>To\<close>.
\<close>

theorem via_first_then_sorted_witness:
  "format_lines False (m_headers invite_encoded) = invite_lines
   \<and> sorted [''CSeq'', ''Call-ID'', ''Contact'', ''Content-Length'', ''From'', ''Max-Forwards'', ''To'']
   \<and> format_lines True two_via_headers =
       [''v: SIP/2.0/UDP proxy.example.com;branch=z9hG4bK1'',
        ''v: SIP/2.0/UDP 10.0.0.1:5060;branch=z9hG4bK7f3a'',
        ''CSeq: 1 INVITE'', ''f: <sip:alice@example.com>;tag=a1'', ''t: <sip:bob@example.com>;tag=b2'']"
proof -
  let ?h = "m_headers invite_encoded"
  let ?o = "\<lambda>kv. \<not> is_via kv"
  have d: "distinct (map fst ?h)" "distinct (map fst two_via_headers)"
    by code_simp+
  have e1: "concat (map (item_lines False) (filter is_via ?h)) = [hd invite_lines]"
    by code_simp
  have e2: "concat (map (item_lines False) (sort_key fst (filter ?o ?h))) = tl invite_lines"
    by code_simp
  have e3: "map fst (sort_key fst (filter ?o ?h))
      = [''CSeq'', ''Call-ID'', ''Contact'', ''Content-Length'', ''From'', ''Max-Forwards'', ''To'']"
    by code_simp
  have e4: "hd invite_lines # tl invite_lines = invite_lines"
    by (simp add: invite_lines_def)
  have e5: "concat (map (item_lines True) (filter is_via two_via_headers))
      = [''v: SIP/2.0/UDP proxy.example.com;branch=z9hG4bK1'',
         ''v: SIP/2.0/UDP 10.0.0.1:5060;branch=z9hG4bK7f3a'']"
    by code_simp
  have e6: "concat (map (item_lines True) (sort_key fst (filter ?o two_via_headers)))
      = [''CSeq: 1 INVITE'', ''f: <sip:alice@example.com>;tag=a1'', ''t: <sip:bob@example.com>;tag=b2'']"
    by code_simp
  note a = via_first_then_sorted [OF d(1), of False]
  note b = via_first_then_sorted [OF d(2), of True]
  from a have "format_lines False ?h
      = concat (map (item_lines False) (filter is_via ?h))
          @ concat (map (item_lines False) (sort_key fst (filter ?o ?h)))"
    by blast
  then have c1: "format_lines False ?h = invite_lines"
    by (simp only: e1 e2 e4 append_Cons append_Nil)
  from a have "sorted (map fst (sort_key fst (filter ?o ?h)))"
    by blast
  then have c2: "sorted [''CSeq'', ''Call-ID'', ''Contact'', ''Content-Length'', ''From'', ''Max-Forwards'', ''To'']"
    by (simp only: e3)
  from b have "format_lines True two_via_headers
      = concat (map (item_lines True) (filter is_via two_via_headers))
          @ concat (map (item_lines True) (sort_key fst (filter ?o two_via_headers)))"
    by blast
  then have c3: "format_lines True two_via_headers =
       [''v: SIP/2.0/UDP proxy.example.com;branch=z9hG4bK1'',
        ''v: SIP/2.0/UDP 10.0.0.1:5060;branch=z9hG4bK7f3a'',
        ''CSeq: 1 INVITE'', ''f: <sip:alice@example.com>;tag=a1'', ''t: <sip:bob@example.com>;tag=b2'']"
    by (simp only: e5 e6 append_Cons append_Nil)
  from c1 c2 c3 show ?thesis by blast
qed

text \<open>
  C3 as stated fails: in the encoded INVITE the line of \<open>CSeq\<close> stands before that of
  \<open>Call-ID\<close>, because \<open>S\<close> is below \<open>a\<close>; without regard to case, \<open>call-id\<close> is
  below \<open>cseq\<close>, so the names after \<open>Via\<close> are not in case-insensitive order.
\<close>

theorem header_order_is_case_sensitive:
  "encode_parts example_env invite_request = Inr ((invite_lines, ''v=0''), invite_encoded)
   \<and> map line_name invite_lines
       = [''Via'', ''CSeq'', ''Call-ID'', ''Contact'', ''Content-Length'', ''From'', ''Max-Forwards'', ''To'']
   \<and> \<not> sorted (map (\<lambda>l. lower (line_name l)) (tl invite_lines))
   \<and> lower ''Call-ID'' < lower ''CSeq''"
proof -
  have "map line_name invite_lines
       = [''Via'', ''CSeq'', ''Call-ID'', ''Contact'', ''Content-Length'', ''From'', ''Max-Forwards'', ''To'']"
    by code_simp
  moreover have "\<not> sorted (map (\<lambda>l. lower (line_name l)) (tl invite_lines))"
    by code_simp
  moreover have "lower ''Call-ID'' < lower ''CSeq''"
    by code_simp
  ultimately show ?thesis
    using encode_invite_request by blast
qed

section \<open>Parsing what \<open>encode\<close> wrote\<close>
























































lemma space_is_space: "is_space (CHR '' '')"
  by (simp add: is_space_def)


lemma upper_not_space: "list_all is_upper s \<Longrightarrow> \<forall>c \<in> set s. \<not> is_space c"
  by (auto simp: list_all_iff is_upper_def is_space_def)

lemma upper_no_blank: "list_all is_upper s \<Longrightarrow> CHR '' '' \<notin> set s"
  using upper_not_space space_is_space by blast




end
